theory Spec2Isabelle
  imports Main "HOL-Library.Char_ord" "HOL-Library.List_Lexorder"
begin

section \<open>JavaScript values used by the event bus\<close>

text \<open>
  Strings are lists of code units; \<open>length\<close> is JavaScript's \<open>.length\<close>. The
  model has the code units 0..255 only (\<^typ>\<open>char\<close>).

  A JavaScript number that the code computes with (the \<open>limit\<close> of a query, the result
  of \<open>Number.parseInt\<close>) is \<open>NaN\<close>, an infinity or a finite integer. A finite value
  is kept exact: the code only compares such numbers with 0, 1000 and 1048576 and
  uses them as slice offsets, and rounding to a double changes none of these.
\<close>

datatype jsnum = NaN | NegInf | Finite int | PosInf

text \<open>\<open>a <= b\<close> of JavaScript: false as soon as one side is \<open>NaN\<close>.\<close>

fun js_le :: "jsnum \<Rightarrow> jsnum \<Rightarrow> bool" where
  "js_le NaN _ = False"
| "js_le _ NaN = False"
| "js_le NegInf _ = True"
| "js_le _ PosInf = True"
| "js_le (Finite a) (Finite b) = (a \<le> b)"
| "js_le (Finite a) NegInf = False"
| "js_le PosInf (Finite b) = False"
| "js_le PosInf NegInf = False"

text \<open>\<open>a > b\<close> of JavaScript.\<close>

fun js_gt :: "jsnum \<Rightarrow> jsnum \<Rightarrow> bool" where
  "js_gt NaN _ = False"
| "js_gt _ NaN = False"
| "js_gt NegInf _ = False"
| "js_gt _ PosInf = False"
| "js_gt (Finite a) (Finite b) = (a > b)"
| "js_gt (Finite a) NegInf = True"
| "js_gt PosInf (Finite b) = True"
| "js_gt PosInf NegInf = True"

text \<open>Unary minus.\<close>

fun js_neg :: "jsnum \<Rightarrow> jsnum" where
  "js_neg NaN = NaN"
| "js_neg NegInf = PosInf"
| "js_neg PosInf = NegInf"
| "js_neg (Finite a) = Finite (- a)"

text \<open>\<open>Math.min(a, b)\<close>: \<open>NaN\<close> if either argument is.\<close>

fun Math_min :: "jsnum \<Rightarrow> jsnum \<Rightarrow> jsnum" where
  "Math_min NaN _ = NaN"
| "Math_min _ NaN = NaN"
| "Math_min NegInf _ = NegInf"
| "Math_min _ NegInf = NegInf"
| "Math_min PosInf b = b"
| "Math_min a PosInf = a"
| "Math_min (Finite a) (Finite b) = Finite (min a b)"

text \<open>\<open>a + b\<close>.\<close>

fun js_add :: "jsnum \<Rightarrow> jsnum \<Rightarrow> jsnum" where
  "js_add NaN _ = NaN"
| "js_add _ NaN = NaN"
| "js_add PosInf NegInf = NaN"
| "js_add NegInf PosInf = NaN"
| "js_add PosInf _ = PosInf"
| "js_add _ PosInf = PosInf"
| "js_add NegInf _ = NegInf"
| "js_add _ NegInf = NegInf"
| "js_add (Finite a) (Finite b) = Finite (a + b)"

text \<open>\<open>Number.isFinite\<close>.\<close>

fun Number_isFinite :: "jsnum \<Rightarrow> bool" where
  "Number_isFinite (Finite _) = True"
| "Number_isFinite _ = False"

text \<open>
  \<open>Array.prototype.slice(start)\<close> with one argument: the relative start goes through
  \<open>ToIntegerOrInfinity\<close> (so \<open>NaN\<close> becomes 0), a negative start counts from the end
  and is clamped at 0, a positive one is clamped at the length.
\<close>

fun slice_from :: "jsnum \<Rightarrow> 'a list \<Rightarrow> 'a list" where
  "slice_from NaN xs = xs"
| "slice_from NegInf xs = xs"
| "slice_from PosInf xs = []"
| "slice_from (Finite k) xs =
     (if k < 0 then drop (nat (max (int (length xs) + k) 0)) xs
      else drop (nat (min k (int (length xs)))) xs)"

subsection \<open>Number.parseInt(s, 10)\<close>

text \<open>
  White space of \<open>StrWhiteSpaceChar\<close> among the code units 0..255: TAB, LF, VT, FF,
  CR, space and the no-break space.
\<close>

definition is_ws :: "char \<Rightarrow> bool" where
  "is_ws c = (of_char c \<in> {9::nat, 10, 11, 12, 13, 32, 160})"

definition is_digit :: "char \<Rightarrow> bool" where
  "is_digit c = (48 \<le> (of_char c :: nat) \<and> (of_char c :: nat) \<le> 57)"

definition digit_val :: "char \<Rightarrow> int" where
  "digit_val c = int (of_char c) - 48"

definition digits_val :: "string \<Rightarrow> int" where
  "digits_val ds = foldl (\<lambda>a d. 10 * a + digit_val d) 0 ds"

text \<open>
  An integer whose magnitude reaches \<open>2^1024 - 2^970\<close> rounds to an infinity.
\<close>

definition to_number :: "int \<Rightarrow> jsnum" where
  "to_number n =
     (if n \<ge> 2 ^ 1024 - 2 ^ 970 then PosInf
      else if n \<le> - (2 ^ 1024 - 2 ^ 970) then NegInf
      else Finite n)"

text \<open>\<open>a * b\<close>: a finite product that overflows is an infinity, and
  \<open>0 * Infinity\<close> is \<open>NaN\<close>.\<close>

fun js_mul :: "jsnum \<Rightarrow> jsnum \<Rightarrow> jsnum" where
  "js_mul NaN _ = NaN"
| "js_mul _ NaN = NaN"
| "js_mul (Finite a) (Finite b) = to_number (a * b)"
| "js_mul (Finite a) PosInf = (if a = 0 then NaN else if a > 0 then PosInf else NegInf)"
| "js_mul (Finite a) NegInf = (if a = 0 then NaN else if a > 0 then NegInf else PosInf)"
| "js_mul PosInf (Finite b) = (if b = 0 then NaN else if b > 0 then PosInf else NegInf)"
| "js_mul NegInf (Finite b) = (if b = 0 then NaN else if b > 0 then NegInf else PosInf)"
| "js_mul PosInf PosInf = PosInf"
| "js_mul NegInf NegInf = PosInf"
| "js_mul PosInf NegInf = NegInf"
| "js_mul NegInf PosInf = NegInf"

text \<open>\<open>2 ** n\<close> for a natural number n: exact below \<open>2^1024\<close>, an infinity from there.\<close>

definition js_pow2 :: "nat \<Rightarrow> jsnum" where
  "js_pow2 n = (if n \<ge> 1024 then PosInf else Finite (2 ^ n))"

definition parseInt :: "string \<Rightarrow> jsnum" where
  "parseInt s =
     (let t = dropWhile is_ws s;
          neg = (t \<noteq> [] \<and> hd t = CHR ''-'');
          u = (if t \<noteq> [] \<and> (hd t = CHR ''-'' \<or> hd t = CHR ''+'') then tl t else t);
          ds = takeWhile is_digit u
      in if ds = [] then NaN
         else to_number (if neg then - digits_val ds else digits_val ds))"

text \<open>
  A string in a boolean position (\<open>if (s)\<close>, \<open>s ? a : b\<close>) where the value may be
  absent (\<open>undefined\<close> or \<open>null\<close>): true exactly for a present, non-empty string.
\<close>

fun truthy_str :: "string option \<Rightarrow> bool" where
  "truthy_str None = False"
| "truthy_str (Some s) = (s \<noteq> [])"

subsection \<open>JSON values\<close>

text \<open>
  What \<open>JSON.parse\<close> returns. An object is the list of its own properties in
  enumeration order, each key once. The payload numbers are never inspected by the server, so their
  type \<open>'n\<close> is left open; \<open>JSON.stringify\<close> takes their rendering as a parameter.
  A property read \<open>o.k\<close> gives \<open>None\<close> for \<open>undefined\<close>.
\<close>

datatype 'n json =
    JNull
  | JBool bool
  | JNum 'n
  | JStr string
  | JArr "'n json list"
  | JObj "(string \<times> 'n json) list"

type_synonym 'n jsobject = "(string \<times> 'n json) list"

definition field :: "'n jsobject \<Rightarrow> string \<Rightarrow> 'n json option" where
  "field ob k = map_of ob k"

text \<open>\<open>k in o\<close> for an object that came out of \<open>JSON.parse\<close> and a key that
  \<open>Object.prototype\<close> does not have.\<close>

definition has_field :: "'n jsobject \<Rightarrow> string \<Rightarrow> bool" where
  "has_field ob k = (map_of ob k \<noteq> None)"

section \<open>The event envelope (types.ts)\<close>

datatype event_source = cli | hook

text \<open>
  The value of an envelope's \<open>type\<close>. It is a string for every envelope that POST
  /events accepts and for every hook name but twelve: \<open>EVENT_NAME_MAP[name]\<close> also
  finds what the map inherits from \<open>Object.prototype\<close>, so for these names the type
  is a native function (\<open>TNative\<close> with the function's name) or, for
  \<open>__proto__\<close>, the prototype object itself.
\<close>

datatype type_value = TStr string | TNative string | TObjectPrototype

record 'n EventEnvelope =
  schemaVersion :: string
  eid :: string
  timestamp :: string
  etype :: type_value
  app :: string
  appRoot :: string
  source :: event_source
  correlationId :: string
  data :: "'n json"

text \<open>
  The field \<open>id\<close> is named \<open>eid\<close> and \<open>type\<close> is named \<open>etype\<close>. A property
  whose value is \<open>undefined\<close> is left out of a \<open>JObj\<close>: a property read and
  \<open>JSON.stringify\<close> cannot tell the two apart.
\<close>

section \<open>The event store (store.ts)\<close>

text \<open>
  The buffer is a JavaScript array: \<open>new Array(capacity)\<close> has \<open>capacity\<close> empty
  slots, and a hole reads as \<open>undefined\<close> (\<open>None\<close>). \<open>new Array\<close> throws unless
  the capacity is an integer from 0 to \<open>2^32 - 1\<close>, so the capacity of a store that
  exists is a natural number. \<open>writeIndex\<close> is \<open>None\<close> when it is \<open>NaN\<close>, which
  \<open>x % 0\<close> evaluates to.

  The journal file is outside the model: what a push sees of it is whether the
  rotate-and-append step threw (\<open>persist_io\<close>), and the clock. The lines written to
  \<open>process.stderr\<close> are recorded in \<open>warnings\<close>, one pair (counter, error text) for
  each line \<open>[event-store] persist failure #n: err\<close>.
\<close>

datatype persist_io = AppendOk | AppendThrows string

record 'e EventStore =
  buffer :: "'e option list"
  capacity :: nat
  persistPath :: "string option"
  writeIndex :: "nat option"
  count :: nat
  lastWarnAt :: int
  persistErrors :: nat
  warnings :: "(nat \<times> string) list"

definition PERSIST_WARN_INTERVAL_MS :: int where
  "PERSIST_WARN_INTERVAL_MS = 30000"

definition new_EventStore :: "nat option \<Rightarrow> string option \<Rightarrow> 'e EventStore" where
  "new_EventStore cap path =
     (let c = (case cap of None \<Rightarrow> 1000 | Some c \<Rightarrow> c)
      in \<lparr> buffer = replicate c None, capacity = c, persistPath = path,
           writeIndex = Some 0, count = 0, lastWarnAt = 0, persistErrors = 0,
           warnings = [] \<rparr>)"

text \<open>\<open>a[i] = v\<close>: an index at or beyond the length extends the array with holes.\<close>

definition array_set :: "'a option list \<Rightarrow> nat \<Rightarrow> 'a \<Rightarrow> 'a option list" where
  "array_set xs i v =
     (if i < length xs then xs[i := Some v]
      else xs @ replicate (i - length xs) None @ [Some v])"

text \<open>
  \<open>push\<close>, lines 86-106. \<open>buffer[NaN] = event\<close> sets a property that is not an
  element, so the elements stay as they are.
\<close>

definition push :: "int \<Rightarrow> persist_io \<Rightarrow> 'e \<Rightarrow> 'e EventStore \<Rightarrow> 'e EventStore" where
  "push now io event s =
     (let s1 = s\<lparr> buffer := (case writeIndex s of
                                 None \<Rightarrow> buffer s
                               | Some i \<Rightarrow> array_set (buffer s) i event) \<rparr>;
          s2 = s1\<lparr> writeIndex := (case writeIndex s1 of
                                 None \<Rightarrow> None
                               | Some i \<Rightarrow> if capacity s1 = 0 then None
                                          else Some ((i + 1) mod capacity s1)) \<rparr>;
          s3 = (if count s2 < capacity s2 then s2\<lparr> count := count s2 + 1 \<rparr> else s2)
      in if truthy_str (persistPath s3) then
           (case io of
              AppendOk \<Rightarrow> s3
            | AppendThrows err \<Rightarrow>
                (let s4 = s3\<lparr> persistErrors := persistErrors s3 + 1 \<rparr>
                 in if now - lastWarnAt s4 \<ge> PERSIST_WARN_INTERVAL_MS
                    then s4\<lparr> lastWarnAt := now,
                             warnings := warnings s4 @ [(persistErrors s4, err)] \<rparr>
                    else s4))
         else s3)"

text \<open>\<open>toArray\<close>, lines 198-207; \<open>slice(NaN)\<close> is the whole array and
  \<open>slice(0, NaN)\<close> is empty.\<close>

definition toArray :: "'e EventStore \<Rightarrow> 'e option list" where
  "toArray s =
     (if count s < capacity s then take (count s) (buffer s)
      else (case writeIndex s of
              None \<Rightarrow> buffer s @ []
            | Some w \<Rightarrow> drop w (buffer s) @ take w (buffer s)))"

datatype js_error = TypeError | SpawnError

text \<open>
  \<open>events.filter((e) => p(e))\<close> where the callback reads a property of \<open>e\<close>:
  reading a property of \<open>undefined\<close> throws a TypeError.
\<close>

definition array_filter :: "('e \<Rightarrow> bool) \<Rightarrow> 'e option list \<Rightarrow> js_error + 'e option list" where
  "array_filter p xs =
     (if list_all (\<lambda>x. x \<noteq> None) xs
      then Inr (filter (\<lambda>x. case x of None \<Rightarrow> False | Some e \<Rightarrow> p e) xs)
      else Inl TypeError)"

text \<open>\<open>if (filter?.key) events = events.filter(...)\<close>: an absent or empty key
  leaves the events as they are.\<close>

fun filter_by ::
  "string option \<Rightarrow> (string \<Rightarrow> 'e \<Rightarrow> bool) \<Rightarrow> 'e option list \<Rightarrow> js_error + 'e option list"
where
  "filter_by None p xs = Inr xs"
| "filter_by (Some k) p xs = (if k = [] then Inr xs else array_filter (p k) xs)"

record EventFilter =
  ftype :: "string option"
  since :: "string option"
  limit :: "jsnum option"

text \<open>\<open>query\<close>, lines 114-128. Strings compare by code units, lexicographically.\<close>

definition query ::
  "EventFilter \<Rightarrow> 'n EventEnvelope EventStore \<Rightarrow> js_error + 'n EventEnvelope option list"
where
  "query f s =
     (case filter_by (ftype f) (\<lambda>t e. etype e = TStr t) (toArray s) of
        Inl x \<Rightarrow> Inl x
      | Inr ev1 \<Rightarrow>
          (case filter_by (since f) (\<lambda>t e. timestamp e > t) ev1 of
             Inl x \<Rightarrow> Inl x
           | Inr ev2 \<Rightarrow>
               (case limit f of
                  None \<Rightarrow> Inr ev2
                | Some n \<Rightarrow> if js_le n (Finite 0) then Inr []
                           else Inr (slice_from (js_neg n) ev2))))"

text \<open>\<open>query()\<close> without an argument.\<close>

definition no_filter :: EventFilter where
  "no_filter = \<lparr> ftype = None, since = None, limit = None \<rparr>"

definition size_of :: "'e EventStore \<Rightarrow> nat" where
  "size_of s = count s"

text \<open>A sequence of pushes, each with its clock reading and journal outcome.\<close>

fun pushes :: "(int \<times> persist_io \<times> 'e) list \<Rightarrow> 'e EventStore \<Rightarrow> 'e EventStore" where
  "pushes [] s = s"
| "pushes ((now, io, e) # ps) s = pushes ps (push now io e s)"

text \<open>
  The invariant of a ring with room for at least one envelope: the buffer has
  \<open>capacity\<close> slots, the write cursor is a slot index, and while the ring is not full
  the cursor equals the count.
\<close>

definition store_inv :: "'e EventStore \<Rightarrow> bool" where
  "store_inv s =
     (0 < capacity s \<and> length (buffer s) = capacity s \<and> count s \<le> capacity s \<and>
      (case writeIndex s of
         None \<Rightarrow> False
       | Some w \<Rightarrow> w < capacity s \<and> (count s < capacity s \<longrightarrow> w = count s)))"

text \<open>An envelope with the given id, type and timestamp, for concrete runs.\<close>

definition sample_event :: "string \<Rightarrow> string \<Rightarrow> string \<Rightarrow> nat EventEnvelope" where
  "sample_event i ty ts =
     \<lparr> schemaVersion = ''1.0.0'', eid = i, timestamp = ts, etype = TStr ty, app = ''demo'',
       appRoot = ''/p'', source = cli, correlationId = ''0a1b2c3d'', data = JObj [] \<rparr>"

subsection \<open>What the specification says of query\<close>






section \<open>JSON.stringify and String\<close>

definition hex_digit :: "nat \<Rightarrow> char" where
  "hex_digit n = ''0123456789abcdef'' ! (n mod 16)"

text \<open>\<open>QuoteJSONString\<close> for one code unit below 256.\<close>

definition escape_char :: "char \<Rightarrow> string" where
  "escape_char c =
     (if c = CHR 0x22 then [CHR 0x5C, CHR 0x22]
      else if c = CHR 0x5C then [CHR 0x5C, CHR 0x5C]
      else if c = CHR 0x08 then [CHR 0x5C, CHR ''b'']
      else if c = CHR 0x09 then [CHR 0x5C, CHR ''t'']
      else if c = CHR 0x0A then [CHR 0x5C, CHR ''n'']
      else if c = CHR 0x0C then [CHR 0x5C, CHR ''f'']
      else if c = CHR 0x0D then [CHR 0x5C, CHR ''r'']
      else if (of_char c :: nat) < 32
        then [CHR 0x5C, CHR ''u'', CHR ''0'', CHR ''0'',
              hex_digit (of_char c div 16), hex_digit (of_char c)]
      else [c])"

definition quote :: "string \<Rightarrow> string" where
  "quote s = [CHR 0x22] @ concat (map escape_char s) @ [CHR 0x22]"

fun join :: "string \<Rightarrow> string list \<Rightarrow> string" where
  "join sep [] = []"
| "join sep [x] = x"
| "join sep (x # y # ys) = x @ sep @ join sep (y # ys)"

text \<open>\<open>JSON.stringify(v)\<close> for a value that \<open>JSON.parse\<close> can return.\<close>

fun stringify :: "('n \<Rightarrow> string) \<Rightarrow> 'n json \<Rightarrow> string" where
  "stringify sh JNull = ''null''"
| "stringify sh (JBool b) = (if b then ''true'' else ''false'')"
| "stringify sh (JNum n) = sh n"
| "stringify sh (JStr s) = quote s"
| "stringify sh (JArr xs) = ''['' @ join '','' (map (stringify sh) xs) @ '']''"
| "stringify sh (JObj kvs) =
     ''{'' @ join '','' (map (\<lambda>kv. quote (fst kv) @ '':'' @ stringify sh (snd kv)) kvs) @ ''}''"

text \<open>\<open>String(v)\<close> and \<open>`${v}`\<close>; inside \<open>Array.prototype.join\<close> a \<open>null\<close>
  element is the empty string.\<close>

fun js_String :: "('n \<Rightarrow> string) \<Rightarrow> 'n json \<Rightarrow> string" where
  "js_String sh JNull = ''null''"
| "js_String sh (JBool b) = (if b then ''true'' else ''false'')"
| "js_String sh (JNum n) = sh n"
| "js_String sh (JStr s) = s"
| "js_String sh (JArr xs) =
     join '','' (map (\<lambda>x. if x = JNull then [] else js_String sh x) xs)"
| "js_String sh (JObj kvs) = ''[object Object]''"

definition js_String_opt :: "('n \<Rightarrow> string) \<Rightarrow> 'n json option \<Rightarrow> string" where
  "js_String_opt sh v = (case v of None \<Rightarrow> ''undefined'' | Some x \<Rightarrow> js_String sh x)"

text \<open>\<open>a ?? b\<close>: \<open>b\<close> when \<open>a\<close> is \<open>undefined\<close> or \<open>null\<close>.\<close>

definition nullish :: "'n json option \<Rightarrow> 'n json \<Rightarrow> 'n json" where
  "nullish v d = (case v of None \<Rightarrow> d | Some JNull \<Rightarrow> d | Some x \<Rightarrow> x)"

text \<open>One property of an object literal; an \<open>undefined\<close> value leaves no entry.\<close>

definition property :: "string \<Rightarrow> 'n json option \<Rightarrow> 'n jsobject" where
  "property k v = (case v of None \<Rightarrow> [] | Some x \<Rightarrow> [(k, x)])"

section \<open>The playback queue (voice/queue.ts)\<close>

text \<open>
  \<open>maxDepth\<close> is a number of items (the server's configuration fixes it at 10, the
  constructor defaults it to 10). \<open>currentProc\<close> holds the file of the running
  player, if any. \<open>drain\<close> is an \<open>async\<close> function: a call runs it up to its first
  \<open>await\<close>, that is until it has started one clip or emptied the queue, and the rest
  runs when the awaited \<open>playOne\<close> settles (\<open>drain_resume\<close>). One turn reads the
  clock once (\<open>now\<close>) and starts at most one player; \<open>spawn_ok\<close> tells whether
  \<open>Bun.spawn\<close> returned or threw.
\<close>

record QueueItem =
  filePath :: string
  label :: string
  enqueuedAt :: int

record PlaybackQueue =
  queue :: "QueueItem list"
  playing :: bool
  currentProc :: "string option"
  maxDepth :: nat
  maxAgeMs :: int
  maxPlayMs :: int

definition new_PlaybackQueue :: "nat option \<Rightarrow> int option \<Rightarrow> int option \<Rightarrow> PlaybackQueue" where
  "new_PlaybackQueue d a p =
     \<lparr> queue = [], playing = False, currentProc = None,
       maxDepth = (case d of None \<Rightarrow> 10 | Some x \<Rightarrow> x),
       maxAgeMs = (case a of None \<Rightarrow> 30000 | Some x \<Rightarrow> x),
       maxPlayMs = (case p of None \<Rightarrow> 15000 | Some x \<Rightarrow> x) \<rparr>"

text \<open>
  The body of \<open>playOne\<close> up to its \<open>await\<close>: \<open>Inl\<close> is the exception of
  \<open>Bun.spawn\<close>.
\<close>

definition playOne_try :: "bool \<Rightarrow> string \<Rightarrow> PlaybackQueue \<Rightarrow> js_error + PlaybackQueue" where
  "playOne_try spawn_ok file q =
     (if spawn_ok then Inr (q\<lparr> currentProc := Some file \<rparr>) else Inl SpawnError)"

text \<open>\<open>playOne\<close> with its \<open>catch\<close> and \<open>finally\<close>: a failed spawn is skipped.\<close>

definition playOne :: "bool \<Rightarrow> string \<Rightarrow> PlaybackQueue \<Rightarrow> PlaybackQueue" where
  "playOne spawn_ok file q =
     (case playOne_try spawn_ok file q of
        Inr q' \<Rightarrow> q'
      | Inl _ \<Rightarrow> q\<lparr> currentProc := None \<rparr>)"

text \<open>The \<open>while\<close> loop of \<open>drain\<close> over the pending items, up to the
  \<open>await\<close>; when the queue is empty the \<open>finally\<close> clears \<open>playing\<close>.\<close>

fun drain_loop :: "int \<Rightarrow> bool \<Rightarrow> PlaybackQueue \<Rightarrow> QueueItem list \<Rightarrow> PlaybackQueue" where
  "drain_loop now spawn_ok q [] = q\<lparr> queue := [], playing := False \<rparr>"
| "drain_loop now spawn_ok q (item # rest) =
     (if now - enqueuedAt item > maxAgeMs q then drain_loop now spawn_ok q rest
      else playOne spawn_ok (filePath item) (q\<lparr> queue := rest \<rparr>))"

definition drain :: "int \<Rightarrow> bool \<Rightarrow> PlaybackQueue \<Rightarrow> PlaybackQueue" where
  "drain now spawn_ok q = drain_loop now spawn_ok (q\<lparr> playing := True \<rparr>) (queue q)"

text \<open>The awaited \<open>playOne\<close> has settled: its \<open>finally\<close> runs and the loop goes on.\<close>

definition drain_resume :: "int \<Rightarrow> bool \<Rightarrow> PlaybackQueue \<Rightarrow> PlaybackQueue" where
  "drain_resume now spawn_ok q = drain_loop now spawn_ok (q\<lparr> currentProc := None \<rparr>) (queue q)"

text \<open>
  \<open>enqueue\<close>, lines 68-78. The result is a sum so that a raise would show: the
  only statement that can throw, \<open>Bun.spawn\<close>, is inside the \<open>try\<close> of
  \<open>playOne\<close>.
\<close>

definition enqueue :: "int \<Rightarrow> bool \<Rightarrow> QueueItem \<Rightarrow> PlaybackQueue \<Rightarrow> js_error + PlaybackQueue" where
  "enqueue now spawn_ok item q =
     (if length (queue q) \<ge> maxDepth q then Inr q
      else (let q1 = q\<lparr> queue := queue q @ [item] \<rparr>
            in if \<not> playing q1 then Inr (drain now spawn_ok q1) else Inr q1))"

definition stop :: "PlaybackQueue \<Rightarrow> PlaybackQueue" where
  "stop q = (let q1 = q\<lparr> queue := [] \<rparr>
             in if currentProc q1 \<noteq> None then q1\<lparr> currentProc := None \<rparr> else q1)"

definition clear :: "PlaybackQueue \<Rightarrow> PlaybackQueue" where
  "clear q = q\<lparr> queue := [] \<rparr>"

definition depth :: "PlaybackQueue \<Rightarrow> nat" where
  "depth q = length (queue q)"

definition isPlaying :: "PlaybackQueue \<Rightarrow> bool" where
  "isPlaying q = playing q"

text \<open>The operations on a queue, for runs of any of them in any order.\<close>

datatype queue_op =
    Enqueue int bool QueueItem
  | Resume int bool
  | Stop
  | Clear

fun apply_queue_op :: "queue_op \<Rightarrow> PlaybackQueue \<Rightarrow> js_error + PlaybackQueue" where
  "apply_queue_op (Enqueue now ok item) q = enqueue now ok item q"
| "apply_queue_op (Resume now ok) q = Inr (drain_resume now ok q)"
| "apply_queue_op Stop q = Inr (stop q)"
| "apply_queue_op Clear q = Inr (clear q)"

fun run_queue :: "queue_op list \<Rightarrow> PlaybackQueue \<Rightarrow> js_error + PlaybackQueue" where
  "run_queue [] q = Inr q"
| "run_queue (x # xs) q =
     (case apply_queue_op x q of Inl e \<Rightarrow> Inl e | Inr q' \<Rightarrow> run_queue xs q')"

section \<open>The server (server.ts)\<close>

subsection \<open>Publish and subscribe\<close>

text \<open>
  The topic registry belongs to the runtime (\<open>Bun.serve\<close>), not to this repository.
  Its contract: a socket holds a set of topics; \<open>publish(topic, message)\<close> sends the
  message once to every socket that holds the topic at that moment. \<open>inbox\<close> records
  the frames a socket has been sent, oldest first.
\<close>

record WsClient =
  topics :: "string set"
  inbox :: "string list"

definition subscribe :: "string \<Rightarrow> WsClient \<Rightarrow> WsClient" where
  "subscribe t ws = ws\<lparr> topics := insert t (topics ws) \<rparr>"

definition unsubscribe :: "string \<Rightarrow> WsClient \<Rightarrow> WsClient" where
  "unsubscribe t ws = ws\<lparr> topics := topics ws - {t} \<rparr>"

definition publish :: "string \<Rightarrow> string \<Rightarrow> WsClient list \<Rightarrow> WsClient list" where
  "publish t msg cs =
     map (\<lambda>ws. if t \<in> topics ws then ws\<lparr> inbox := inbox ws @ [msg] \<rparr> else ws) cs"

text \<open>\<open>websocket.open\<close>, lines 1011-1019; the argument is
  \<open>url.searchParams.get('type')\<close>.\<close>

definition websocket_open :: "string option \<Rightarrow> WsClient \<Rightarrow> WsClient" where
  "websocket_open typeFilter ws =
     (let ws1 = subscribe ''events.all'' ws
      in case typeFilter of
           None \<Rightarrow> ws1
         | Some f \<Rightarrow> if f \<noteq> [] then unsubscribe ''events.all'' (subscribe (''events.'' @ f) ws1)
                     else ws1)"

text \<open>A socket as the upgrade hands it to \<open>open\<close>.\<close>

definition fresh_socket :: WsClient where
  "fresh_socket = \<lparr> topics = {}, inbox = [] \<rparr>"

subsection \<open>Requests, responses and the server's state\<close>

text \<open>
  A request body as \<open>parseJsonObjectBody\<close> sees it: the \<open>content-length\<close> header,
  the byte length that \<open>arrayBuffer()\<close> delivers (\<open>None\<close> if it throws) and what
  \<open>JSON.parse\<close> makes of the decoded bytes (\<open>None\<close> if it throws). A response is
  its status and JSON body; every response carries the same CORS headers.
\<close>

record 'n Request =
  contentLength :: "string option"
  arrayBuffer :: "nat option"
  json_parse :: "'n json option"

record 'n Response =
  status :: nat
  rbody :: "'n json"

text \<open>
  What one request takes from its surroundings: \<open>nanoId()\<close>,
  \<open>new Date().toISOString()\<close>, \<open>generateCorrelationId()\<close>, \<open>Date.now()\<close>, the
  outcome of the journal append, whether \<open>Date.parse\<close> accepts a string, the
  rendering of numbers, the text that \<open>String\<close> gives for the native function of
  a given name (it differs between engines), and for the voice trigger the cached clip that the phrase
  lookup ends in (file and label, \<open>None\<close> when \<open>triggerVoice\<close> returns early) and
  whether the player starts.
\<close>

record 'n Env =
  nanoId :: string
  nowISO :: string
  generateCorrelationId :: string
  now_ms :: int
  journal :: persist_io
  date_parses :: "string \<Rightarrow> bool"
  show_num :: "'n \<Rightarrow> string"
  native_source :: "string \<Rightarrow> string"
  voice_clip :: "(string \<times> string) option"
  spawn_ok :: bool

record 'n Server =
  store :: "'n EventEnvelope EventStore"
  sockets :: "WsClient list"
  playbackQueue :: "PlaybackQueue option"
  defaultApp :: string
  defaultAppRoot :: string

text \<open>\<open>String(type)\<close>, and the \<open>type\<close> property as \<open>JSON.stringify\<close> sees it: a
  function-valued property is left out, the prototype object is \<open>{}\<close>.\<close>

definition type_String :: "'n Env \<Rightarrow> type_value \<Rightarrow> string" where
  "type_String env t =
     (case t of TStr s \<Rightarrow> s | TNative f \<Rightarrow> native_source env f
      | TObjectPrototype \<Rightarrow> ''[object Object]'')"

definition type_json :: "type_value \<Rightarrow> 'n json option" where
  "type_json t =
     (case t of TStr s \<Rightarrow> Some (JStr s) | TNative f \<Rightarrow> None
      | TObjectPrototype \<Rightarrow> Some (JObj []))"

definition MAX_BODY_BYTES :: int where
  "MAX_BODY_BYTES = 1024 * 1024"

definition error_response :: "nat \<Rightarrow> string \<Rightarrow> 'n Response" where
  "error_response st msg = \<lparr> status = st, rbody = JObj [(''error'', JStr msg)] \<rparr>"

definition isNonEmptyString :: "'n json option \<Rightarrow> bool" where
  "isNonEmptyString v = (case v of Some (JStr s) \<Rightarrow> \<not> list_all is_ws s | _ \<Rightarrow> False)"

text \<open>The string of a value that \<open>isNonEmptyString\<close> or \<open>typeof\<close> has shown
  to be one.\<close>

definition str_of :: "'n json option \<Rightarrow> string" where
  "str_of v = (case v of Some (JStr s) \<Rightarrow> s | _ \<Rightarrow> [])"

definition isValidTimestamp :: "'n Env \<Rightarrow> string \<Rightarrow> bool" where
  "isValidTimestamp env v = date_parses env v"

text \<open>\<open>parseJsonObjectBody\<close>, lines 428-501: \<open>Inl\<close> is the error response.\<close>

definition parseJsonObjectBody :: "'n Request \<Rightarrow> 'n Response + 'n jsobject" where
  "parseJsonObjectBody req =
     (if (case contentLength req of
            None \<Rightarrow> False
          | Some cl \<Rightarrow> cl \<noteq> [] \<and> Number_isFinite (parseInt cl)
                       \<and> js_gt (parseInt cl) (Finite MAX_BODY_BYTES))
      then Inl (error_response 413 ''Request body too large (max 1MB)'')
      else (case arrayBuffer req of
              None \<Rightarrow> Inl (error_response 400 ''Invalid JSON body'')
            | Some n \<Rightarrow>
                if int n > MAX_BODY_BYTES
                then Inl (error_response 413 ''Request body too large (max 1MB)'')
                else (case json_parse req of
                        None \<Rightarrow> Inl (error_response 400 ''Invalid JSON body'')
                      | Some (JObj ob) \<Rightarrow> Inr ob
                      | Some _ \<Rightarrow> Inl (error_response 400 ''Body must be a JSON object''))))"

text \<open>\<open>createEvent\<close> of schema.ts.\<close>

record EventContext =
  c_app :: string
  c_appRoot :: string
  c_source :: event_source
  c_correlationId :: "string option"

definition createEvent ::
  "'n Env \<Rightarrow> type_value \<Rightarrow> 'n json \<Rightarrow> EventContext \<Rightarrow> 'n EventEnvelope"
where
  "createEvent env ty d ctx =
     \<lparr> schemaVersion = ''1.0.0'', eid = nanoId env, timestamp = nowISO env, etype = ty,
       app = c_app ctx, appRoot = c_appRoot ctx, source = c_source ctx,
       correlationId = (case c_correlationId ctx of
                          None \<Rightarrow> generateCorrelationId env | Some c \<Rightarrow> c),
       data = d \<rparr>"

text \<open>The envelope as the object that \<open>JSON.stringify\<close> is given.\<close>

definition envelope_json :: "'n EventEnvelope \<Rightarrow> 'n json" where
  "envelope_json e =
     JObj ([(''schemaVersion'', JStr (schemaVersion e)), (''id'', JStr (eid e)),
            (''timestamp'', JStr (timestamp e))]
           @ property ''type'' (type_json (etype e))
           @ [(''app'', JStr (app e)), (''appRoot'', JStr (appRoot e)),
              (''source'', JStr (case source e of cli \<Rightarrow> ''cli'' | hook \<Rightarrow> ''hook'')),
              (''correlationId'', JStr (correlationId e)), (''data'', data e)])"

text \<open>\<open>validateFullEnvelope\<close>, lines 503-548: \<open>Inl\<close> is the error text.\<close>

definition validateFullEnvelope :: "'n Env \<Rightarrow> 'n jsobject \<Rightarrow> string + 'n EventEnvelope" where
  \<open>validateFullEnvelope env body =
     (if field body ''schemaVersion'' \<noteq> Some (JStr ''1.0.0'')
        then Inl (''Unknown schemaVersion: '' @ js_String_opt (show_num env) (field body ''schemaVersion''))
      else if \<not> isNonEmptyString (field body ''id'')
        then Inl ''Missing or invalid "id" field''
      else if \<not> isNonEmptyString (field body ''timestamp'')
              \<or> \<not> isValidTimestamp env (str_of (field body ''timestamp''))
        then Inl ''Missing or invalid "timestamp" field''
      else if \<not> isNonEmptyString (field body ''type'')
        then Inl ''Missing or invalid "type" field''
      else if \<not> isNonEmptyString (field body ''app'')
        then Inl ''Missing or invalid "app" field''
      else if \<not> isNonEmptyString (field body ''appRoot'')
        then Inl ''Missing or invalid "appRoot" field''
      else if field body ''source'' \<noteq> Some (JStr ''cli'') \<and> field body ''source'' \<noteq> Some (JStr ''hook'')
        then Inl ''Missing or invalid "source" field''
      else if \<not> isNonEmptyString (field body ''correlationId'')
        then Inl ''Missing or invalid "correlationId" field''
      else if \<not> has_field body ''data''
        then Inl ''Missing "data" field''
      else Inr \<lparr> schemaVersion = ''1.0.0'',
                 eid = str_of (field body ''id''),
                 timestamp = str_of (field body ''timestamp''),
                 etype = TStr (str_of (field body ''type'')),
                 app = str_of (field body ''app''),
                 appRoot = str_of (field body ''appRoot''),
                 source = (if field body ''source'' = Some (JStr ''cli'') then cli else hook),
                 correlationId = str_of (field body ''correlationId''),
                 data = (case field body ''data'' of Some d \<Rightarrow> d | None \<Rightarrow> JNull) \<rparr>)\<close>

subsection \<open>The enrichment pipeline\<close>

definition EVENT_NAME_MAP :: "(string \<times> string) list" where
  "EVENT_NAME_MAP =
     [(''session-start'', ''hook.session_start''),
      (''pre-tool-use'', ''hook.pre_tool_use''),
      (''post-tool-use'', ''hook.post_tool_use''),
      (''post-tool-use-failure'', ''hook.post_tool_use_failure''),
      (''stop'', ''hook.stop'')]"

text \<open>
  The methods that the map inherits from \<open>Object.prototype\<close>, each a native function
  of the same name; \<open>constructor\<close> is the function \<open>Object\<close>, and \<open>__proto__\<close> is
  an accessor that gives the prototype object.
\<close>

definition object_prototype_methods :: "string list" where
  "object_prototype_methods =
     [''hasOwnProperty'', ''isPrototypeOf'', ''propertyIsEnumerable'',
      ''toLocaleString'', ''toString'', ''valueOf'', ''__defineGetter__'',
      ''__defineSetter__'', ''__lookupGetter__'', ''__lookupSetter__'']"

text \<open>\<open>mapEventName\<close>, lines 240-242: \<open>EVENT_NAME_MAP[name] ?? `hook.${...}`\<close>.\<close>

definition mapEventName :: "string \<Rightarrow> type_value" where
  "mapEventName name =
     (case map_of EVENT_NAME_MAP name of
        Some t \<Rightarrow> TStr t
      | None \<Rightarrow>
          if name = ''constructor'' then TNative ''Object''
          else if name = ''__proto__'' then TObjectPrototype
          else if name \<in> set object_prototype_methods then TNative name
          else TStr (''hook.'' @ map (\<lambda>c. if c = CHR ''-'' then CHR ''_'' else c) name))"

text \<open>\<open>truncateField\<close>, lines 255-259, with \<open>maxLen\<close> at its default.\<close>

definition truncateField :: "('n \<Rightarrow> string) \<Rightarrow> 'n json option \<Rightarrow> 'n json option" where
  "truncateField sh v =
     (let str = stringify sh (nullish v (JStr []))
      in if length str \<le> 2000 then v else Some (JStr (take 2000 str @ ''...'')))"

text \<open>\<open>extractEventFields\<close>, lines 273-326.\<close>

definition extractEventFields :: "('n \<Rightarrow> string) \<Rightarrow> string \<Rightarrow> 'n jsobject \<Rightarrow> 'n json" where
  "extractEventFields sh eventName raw =
     (if eventName = ''session-start'' then
        JObj (property ''hookEvent'' (Some (JStr ''session_start''))
            @ property ''sessionId'' (field raw ''session_id'')
            @ property ''source'' (Some (nullish (field raw ''source'') (JStr ''unknown'')))
            @ property ''model'' (Some (nullish (field raw ''model'') (JStr [])))
            @ property ''agentType'' (field raw ''agent_type'')
            @ property ''permissionMode'' (field raw ''permission_mode''))
      else if eventName = ''pre-tool-use'' then
        JObj (property ''hookEvent'' (Some (JStr ''pre_tool_use''))
            @ property ''sessionId'' (field raw ''session_id'')
            @ property ''toolName'' (Some (nullish (field raw ''tool_name'') (JStr [])))
            @ property ''toolInputPreview'' (truncateField sh (field raw ''tool_input''))
            @ property ''permissionMode'' (field raw ''permission_mode''))
      else if eventName = ''post-tool-use'' then
        JObj (property ''hookEvent'' (Some (JStr ''post_tool_use''))
            @ property ''sessionId'' (field raw ''session_id'')
            @ property ''toolName'' (Some (nullish (field raw ''tool_name'') (JStr [])))
            @ property ''toolUseId'' (Some (nullish (field raw ''tool_use_id'') (JStr [])))
            @ property ''toolResultPreview'' (truncateField sh (field raw ''tool_result''))
            @ property ''permissionMode'' (field raw ''permission_mode''))
      else if eventName = ''post-tool-use-failure'' then
        JObj (property ''hookEvent'' (Some (JStr ''post_tool_use_failure''))
            @ property ''sessionId'' (field raw ''session_id'')
            @ property ''toolName'' (Some (nullish (field raw ''tool_name'') (JStr [])))
            @ property ''toolUseId'' (Some (nullish (field raw ''tool_use_id'') (JStr [])))
            @ property ''toolError''
                (Some (JStr (js_String sh (nullish (field raw ''tool_error'') (JStr [])))))
            @ property ''permissionMode'' (field raw ''permission_mode''))
      else if eventName = ''stop'' then
        JObj (property ''hookEvent'' (Some (JStr ''stop''))
            @ property ''sessionId'' (field raw ''session_id'')
            @ property ''transcriptPath'' (field raw ''transcript_path'')
            @ property ''permissionMode'' (field raw ''permission_mode''))
      else
        JObj (property ''hookEvent'' (Some (JStr eventName))
            @ property ''sessionId'' (field raw ''session_id'')
            @ property ''raw'' (Some (JObj raw))))"

subsection \<open>The handlers\<close>

text \<open>
  \<open>triggerVoice\<close>, lines 790-813. Its early returns (mode off, no phrase, no entry,
  clip not cached) are the case \<open>voice_clip env = None\<close>.
\<close>

definition triggerVoice :: "'n Env \<Rightarrow> PlaybackQueue \<Rightarrow> js_error + PlaybackQueue" where
  "triggerVoice env q =
     (case voice_clip env of
        None \<Rightarrow> Inr q
      | Some (file, lbl) \<Rightarrow>
          enqueue (now_ms env) (spawn_ok env)
            \<lparr> filePath = file, label = lbl, enqueuedAt = now_ms env \<rparr> q)"

text \<open>Store and publish, as both ingress handlers do it (lines 608-612 and 700-704).\<close>

definition store_and_publish :: "'n Env \<Rightarrow> 'n EventEnvelope \<Rightarrow> 'n Server \<Rightarrow> 'n Server" where
  "store_and_publish env event srv =
     (let st = push (now_ms env) (journal env) event (store srv);
          message = stringify (show_num env) (envelope_json event);
          cs1 = publish ''events.all'' message (sockets srv);
          cs2 = publish (''events.'' @ type_String env (etype event)) message cs1
      in srv\<lparr> store := st, sockets := cs2 \<rparr>)"

text \<open>\<open>handleHookEvent\<close>, lines 571-624. \<open>Inl\<close> is an exception that leaves the
  handler.\<close>

definition handleHookEvent ::
  "'n Env \<Rightarrow> string \<Rightarrow> 'n Request \<Rightarrow> 'n Server \<Rightarrow> js_error + ('n Response \<times> 'n Server)"
where
  "handleHookEvent env eventName req srv =
     (case parseJsonObjectBody req of
        Inl resp \<Rightarrow> Inr (resp, srv)
      | Inr raw \<Rightarrow>
          if eventName = ''stop'' \<and> field raw ''stop_hook_active'' = Some (JBool True)
          then Inr (\<lparr> status = 200,
                      rbody = JObj [(''status'', JStr ''skipped''),
                                    (''reason'', JStr ''stop_hook_active'')] \<rparr>, srv)
          else (let eventType = mapEventName eventName;
                         root = (case field raw ''cwd'' of
                                   Some (JStr c) \<Rightarrow> c | _ \<Rightarrow> defaultAppRoot srv);
                         appName = (if isNonEmptyString (field raw ''app'')
                                    then str_of (field raw ''app'') else defaultApp srv);
                         envelope = createEvent env eventType
                           (extractEventFields (show_num env) eventName raw)
                           \<lparr> c_app = appName, c_appRoot = root, c_source = hook,
                             c_correlationId = Some (generateCorrelationId env) \<rparr>;
                         srv1 = store_and_publish env envelope srv;
                         resp = \<lparr> status = 201, rbody = JObj [(''id'', JStr (eid envelope))] \<rparr>
                     in if eventName = ''stop'' then
                          (case playbackQueue srv1 of
                             None \<Rightarrow> Inr (resp, srv1)
                           | Some q \<Rightarrow>
                               (case triggerVoice env q of
                                  Inl e \<Rightarrow> Inl e
                                | Inr q' \<Rightarrow> Inr (resp, srv1\<lparr> playbackQueue := Some q' \<rparr>)))
                        else Inr (resp, srv1)))"

text \<open>\<open>handlePostEnvelope\<close>, lines 645-710.\<close>

definition handlePostEnvelope :: "'n Env \<Rightarrow> 'n Request \<Rightarrow> 'n Server \<Rightarrow> 'n Response \<times> 'n Server" where
  \<open>handlePostEnvelope env req srv =
     (case parseJsonObjectBody req of
        Inl resp \<Rightarrow> (resp, srv)
      | Inr body \<Rightarrow>
          if (case field body ''type'' of Some (JStr _) \<Rightarrow> False | _ \<Rightarrow> True)
            then (error_response 400 ''Missing or invalid "type" field'', srv)
          else if \<not> has_field body ''data''
            then (error_response 400 ''Missing "data" field'', srv)
          else
            (case (if field body ''schemaVersion'' \<noteq> None
                   then validateFullEnvelope env body
                   else Inr (createEvent env (TStr (str_of (field body ''type'')))
                          (nullish (field body ''data'') (JObj []))
                          \<lparr> c_app = (if isNonEmptyString (field body ''app'')
                                      then str_of (field body ''app'') else defaultApp srv),
                            c_appRoot = (if isNonEmptyString (field body ''appRoot'')
                                      then str_of (field body ''appRoot'') else defaultAppRoot srv),
                            c_source = (if field body ''source'' = Some (JStr ''hook'')
                                        then hook else cli),
                            c_correlationId = (if isNonEmptyString (field body ''correlationId'')
                                      then Some (str_of (field body ''correlationId''))
                                      else None) \<rparr>))
             of
               Inl err \<Rightarrow> (error_response 400 err, srv)
             | Inr event \<Rightarrow>
                 (\<lparr> status = 201, rbody = JObj [(''ok'', JBool True), (''id'', JStr (eid event))] \<rparr>,
                  store_and_publish env event srv)))\<close>

text \<open>
  \<open>handleGetEvents\<close>, lines 725-739; the arguments are the three
  \<open>url.searchParams.get\<close> results. The result is the list that the 200 response
  carries.
\<close>

definition handleGetEvents ::
  "string option \<Rightarrow> string option \<Rightarrow> string option \<Rightarrow> 'n EventEnvelope EventStore
     \<Rightarrow> js_error + 'n EventEnvelope option list"
where
  "handleGetEvents ty si limitStr st =
     (let rawLimit = (case limitStr of
                        None \<Rightarrow> Finite 100
                      | Some l \<Rightarrow> if l \<noteq> [] then parseInt l else Finite 100);
          lim = Math_min rawLimit (Finite 1000)
      in query \<lparr> ftype = ty, since = si, limit = Some lim \<rparr> st)"

section \<open>The reconnecting WebSocket client (client.ts)\<close>

text \<open>
  The state that the closures of \<open>connectEventClient\<close> share; \<open>ws\<close> tells whether a
  socket object is held. The delay is computed in double arithmetic. The model has the
  runs in which \<open>reconnectDelay\<close> is a whole number of milliseconds from 0 to below
  \<open>2^53\<close> and the jitter \<open>Math.random() * 1000\<close> is a whole number from 0 to 999:
  there every operation of the code is exact, or overflows as \<open>js_pow2\<close> and
  \<open>js_mul\<close> say, so the result is the value the code hands to \<open>setTimeout\<close>.
\<close>

record EventClient =
  closed :: bool
  ws :: bool
  reconnectTimer :: "jsnum option"
  attempt :: nat

definition BASE_RECONNECT_DELAY_MS :: nat where
  "BASE_RECONNECT_DELAY_MS = 1000"

definition MAX_RECONNECT_DELAY_MS :: int where
  "MAX_RECONNECT_DELAY_MS = 30000"

text \<open>The state after \<open>connectEventClient\<close> has called \<open>connect()\<close>.\<close>

definition connected_client :: EventClient where
  "connected_client = \<lparr> closed = False, ws = True, reconnectTimer = None, attempt = 0 \<rparr>"

text \<open>The argument of \<open>setTimeout\<close> in \<open>ws.onclose\<close>, lines 118-123.\<close>

definition reconnect_wait :: "nat \<Rightarrow> nat \<Rightarrow> nat \<Rightarrow> jsnum" where
  "reconnect_wait reconnectDelay n jitter =
     (let base = Math_min (js_mul (Finite (int reconnectDelay)) (js_pow2 n))
                   (Finite MAX_RECONNECT_DELAY_MS)
      in js_add base (Finite (int jitter)))"

definition onopen :: "EventClient \<Rightarrow> EventClient" where
  "onopen c = c\<lparr> attempt := 0 \<rparr>"

definition onclose :: "bool \<Rightarrow> nat \<Rightarrow> nat \<Rightarrow> EventClient \<Rightarrow> EventClient" where
  "onclose autoReconnect reconnectDelay jitter c =
     (let c1 = c\<lparr> ws := False \<rparr>
      in if \<not> closed c1 \<and> autoReconnect
         then c1\<lparr> reconnectTimer := Some (reconnect_wait reconnectDelay (attempt c1) jitter),
                  attempt := attempt c1 + 1 \<rparr>
         else c1)"

text \<open>The timer fires: \<open>connect()\<close>.\<close>

definition connect :: "EventClient \<Rightarrow> EventClient" where
  "connect c = (if closed c then c else c\<lparr> ws := True \<rparr>)"

text \<open>\<open>close()\<close> of the handle.\<close>

definition client_close :: "EventClient \<Rightarrow> EventClient" where
  "client_close c = c\<lparr> closed := True, reconnectTimer := None, ws := False \<rparr>"

text \<open>A run of failed attempts: each close schedules the timer with its jitter, and
  the timer's \<open>connect()\<close> opens a socket that fails again.\<close>

fun failed_attempts :: "nat \<Rightarrow> nat list \<Rightarrow> EventClient \<Rightarrow> EventClient" where
  "failed_attempts reconnectDelay [] c = c"
| "failed_attempts reconnectDelay (j # js) c =
     failed_attempts reconnectDelay js (connect (onclose True reconnectDelay j c))"

text \<open>
  The formula of the specification and of the comments in client.ts (lines 55 and
  117), \<open>min(base * 2^attempt + jitter, 30s)\<close>, on whole milliseconds.
\<close>

definition spec_reconnect_wait :: "nat \<Rightarrow> nat \<Rightarrow> nat \<Rightarrow> int" where
  "spec_reconnect_wait b n j = min (int b * 2 ^ n + int j) 30000"

section \<open>The emitter (emit.ts)\<close>

text \<open>
  The two module variables. What \<open>emitEvent\<close> sees of the network is how the
  \<open>try\<close> block ends: \<open>fetch\<close> resolves with a response of some status, or the
  block throws (connection refused, the abort after 500 ms, a value that
  \<open>JSON.stringify\<close> rejects). \<open>fetch\<close> resolves for every status; the code does not
  read the response.
\<close>

record Emitter =
  emitFailures :: nat
  lastEmitFailureLogAt :: int

datatype post_outcome = Responded nat | Threw string

datatype completion = Returns | Throws string

definition EMIT_FAILURE_LOG_INTERVAL_MS :: int where
  "EMIT_FAILURE_LOG_INTERVAL_MS = 30000"

definition initial_emitter :: Emitter where
  "initial_emitter = \<lparr> emitFailures = 0, lastEmitFailureLogAt = 0 \<rparr>"

text \<open>The \<open>try\<close> block, lines 312-319: \<open>Inl\<close> is the exception.\<close>

definition emit_try :: "post_outcome \<Rightarrow> Emitter \<Rightarrow> string + Emitter" where
  "emit_try out m =
     (case out of
        Threw err \<Rightarrow> Inl err
      | Responded _ \<Rightarrow> Inr (m\<lparr> emitFailures := 0 \<rparr>))"

text \<open>
  \<open>emitEvent\<close>, lines 304-331, for a call whose \<open>try\<close> block ends as \<open>out\<close>
  and whose \<open>catch\<close> reads the clock as \<open>now\<close>. The result is how the call
  completes, the module state, and the lines written to \<open>process.stderr\<close>, each the
  pair (counter, error text) of \<open>[emitter] emit failure #n: err\<close>.
\<close>

definition emitEvent ::
  "post_outcome \<Rightarrow> int \<Rightarrow> Emitter \<Rightarrow> completion \<times> Emitter \<times> (nat \<times> string) list"
where
  "emitEvent out now m =
     (case emit_try out m of
        Inr m' \<Rightarrow> (Returns, m', [])
      | Inl err \<Rightarrow>
          (let m1 = m\<lparr> emitFailures := emitFailures m + 1 \<rparr>
           in if now - lastEmitFailureLogAt m1 \<ge> EMIT_FAILURE_LOG_INTERVAL_MS
              then (Returns, m1\<lparr> lastEmitFailureLogAt := now \<rparr>, [(emitFailures m1, err)])
              else (Returns, m1, [])))"

text \<open>
  A run of calls, each with its outcome and clock reading: the times at which a
  line was written, in order, and the state at the end.
\<close>

fun emit_run :: "(post_outcome \<times> int) list \<Rightarrow> Emitter \<Rightarrow> int list \<times> Emitter" where
  "emit_run [] m = ([], m)"
| "emit_run ((out, now) # rest) m =
     (case emitEvent out now m of
        (_, m', lines) \<Rightarrow>
          (case emit_run rest m' of
             (ts, m'') \<Rightarrow> ((if lines = [] then [] else [now]) @ ts, m'')))"

text \<open>
  The specification's reading of a failed emit: a network error, a timeout or a
  response outside 200-299.
\<close>

definition spec_emit_failed :: "post_outcome \<Rightarrow> bool" where
  "spec_emit_failed out =
     (case out of Threw _ \<Rightarrow> True | Responded st \<Rightarrow> \<not> (200 \<le> st \<and> st \<le> 299))"

text \<open>Every two neighbours of a list of times are at least \<open>d\<close> apart.\<close>

fun spaced :: "int \<Rightarrow> int list \<Rightarrow> bool" where
  "spaced d [] = True"
| "spaced d [t] = True"
| "spaced d (t # u # ts) = (u - t \<ge> d \<and> spaced d (u # ts))"

section \<open>Predicates and sample data for the server\<close>

text \<open>
  \<open>checked_envelope\<close> is what \<open>validateFullEnvelope\<close> establishes of an envelope;
  \<open>spec_wellformed\<close> adds what section 3 of the specification asks of \<open>data\<close>: an
  object, not an array and not null. The rest are a concrete environment, server and
  requests for runs of the handlers.
\<close>

definition non_blank :: "string \<Rightarrow> bool" where
  "non_blank s = (\<not> list_all is_ws s)"

definition checked_envelope :: "'n Env \<Rightarrow> 'n EventEnvelope \<Rightarrow> bool" where
  "checked_envelope env e =
     (schemaVersion e = ''1.0.0'' \<and> non_blank (eid e) \<and> non_blank (timestamp e)
      \<and> date_parses env (timestamp e)
      \<and> (case etype e of TStr t \<Rightarrow> non_blank t | _ \<Rightarrow> False) \<and> non_blank (app e)
      \<and> non_blank (appRoot e) \<and> non_blank (correlationId e))"

definition is_object :: "'n json \<Rightarrow> bool" where
  "is_object d = (case d of JObj _ \<Rightarrow> True | _ \<Rightarrow> False)"

definition spec_wellformed :: "'n Env \<Rightarrow> 'n EventEnvelope \<Rightarrow> bool" where
  "spec_wellformed env e = (checked_envelope env e \<and> is_object (data e))"

definition data_field :: "'n json \<Rightarrow> string \<Rightarrow> 'n json option" where
  "data_field d k = (case d of JObj ob \<Rightarrow> field ob k | _ \<Rightarrow> None)"

text \<open>
  The preview that the specification describes for a serialization longer than 2000
  characters: its first 2000 characters followed by "...".
\<close>

definition spec_preview :: "('n \<Rightarrow> string) \<Rightarrow> 'n json option \<Rightarrow> string" where
  "spec_preview sh v = take 2000 (stringify sh (nullish v (JStr []))) @ ''...''"

definition sample_env :: "nat Env" where
  "sample_env =
     \<lparr> nanoId = ''id-1'', nowISO = ''2026-01-01T00:00:00.000Z'',
       generateCorrelationId = ''0a1b2c3d'', now_ms = 0, journal = AppendOk,
       date_parses = (\<lambda>s. True), show_num = (\<lambda>n. ''0''),
       native_source = (\<lambda>f. ''function '' @ f @ ''() { [native code] }''), voice_clip = None,
       spawn_ok = True \<rparr>"

definition sample_server :: "WsClient list \<Rightarrow> nat Server" where
  "sample_server cs =
     \<lparr> store = new_EventStore (Some 3) None, sockets = cs, playbackQueue = None,
       defaultApp = ''demo'', defaultAppRoot = ''/p'' \<rparr>"

definition full_envelope_body :: "string \<Rightarrow> nat json \<Rightarrow> nat jsobject" where
  "full_envelope_body ty d =
     [(''schemaVersion'', JStr ''1.0.0''), (''id'', JStr ''e1''),
      (''timestamp'', JStr ''2026-01-01T00:00:00.000Z''), (''type'', JStr ty),
      (''app'', JStr ''demo''), (''appRoot'', JStr ''/p''), (''source'', JStr ''cli''),
      (''correlationId'', JStr ''0a1b2c3d''), (''data'', d)]"

definition sample_full_envelope :: "string \<Rightarrow> nat json \<Rightarrow> nat EventEnvelope" where
  "sample_full_envelope ty d =
     \<lparr> schemaVersion = ''1.0.0'', eid = ''e1'', timestamp = ''2026-01-01T00:00:00.000Z'',
       etype = TStr ty, app = ''demo'', appRoot = ''/p'', source = cli,
       correlationId = ''0a1b2c3d'', data = d \<rparr>"

definition request_of :: "'n jsobject \<Rightarrow> 'n Request" where
  "request_of ob = \<lparr> contentLength = None, arrayBuffer = Some 100, json_parse = Some (JObj ob) \<rparr>"

definition big_tool_input :: "nat json" where
  "big_tool_input = JObj [(''content'', JStr (replicate 3000 CHR ''x''))]"


definition stop_body :: "nat jsobject" where
  "stop_body = [(''session_id'', JStr ''S''), (''cwd'', JStr ''/tmp''),
                (''stop_hook_active'', JBool True)]"


text \<open>A queue item and a queue that is full, for concrete runs.\<close>

definition sample_item :: QueueItem where
  "sample_item = \<lparr> filePath = ''/tmp/a.mp3'', label = ''a'', enqueuedAt = 0 \<rparr>"

definition full_queue :: PlaybackQueue where
  "full_queue = \<lparr> queue = [sample_item, sample_item], playing = True, currentProc = Some ''/tmp/a.mp3'',
       maxDepth = 2, maxAgeMs = 30000, maxPlayMs = 15000 \<rparr>"

section \<open>Verification: the event store\<close>

lemma store_inv_new: "0 < c \<Longrightarrow> store_inv (new_EventStore (Some c) path)"
  by (simp add: store_inv_def new_EventStore_def)

lemma push_ring_fields:
  "capacity (push now io e s) = capacity s"
  "persistPath (push now io e s) = persistPath s"
  "count (push now io e s) = (if count s < capacity s then count s + 1 else count s)"
  "buffer (push now io e s) = (case writeIndex s of None \<Rightarrow> buffer s | Some i \<Rightarrow> array_set (buffer s) i e)"
  "writeIndex (push now io e s) = (case writeIndex s of None \<Rightarrow> None
       | Some i \<Rightarrow> if capacity s = 0 then None else Some ((i + 1) mod capacity s))"
  by (simp_all add: push_def Let_def split: persist_io.split option.split)

lemma store_inv_push: "store_inv s \<Longrightarrow> store_inv (push now io e s)"
  unfolding store_inv_def
  by (auto simp add: push_ring_fields array_set_def mod_Suc split: option.splits)

lemma update_last_slot: "Suc w = length xs \<Longrightarrow> xs[w := v] = take w xs @ [v]"
  by (simp add: upd_conv_take_nth_drop)

lemma toArray_push:
  assumes "store_inv s"
  shows "toArray (push now io e s) =
     (if count s < capacity s then toArray s @ [Some e] else tl (toArray s) @ [Some e])"
proof -
  from assms obtain w where w: "writeIndex s = Some w" "w < capacity s"
    "count s < capacity s \<longrightarrow> w = count s" and len: "length (buffer s) = capacity s"
    and cnt: "count s \<le> capacity s" and pos: "0 < capacity s"
    by (auto simp: store_inv_def split: option.splits)
  show ?thesis
  proof (cases "count s < capacity s")
    case True
    then have wc: "w = count s" using w by simp
    show ?thesis
    proof (cases "count s + 1 < capacity s")
      case True
      then show ?thesis using w len wc
        by (simp add: toArray_def push_ring_fields array_set_def take_Suc_conv_app_nth)
    next
      case False
      with True have eq: "count s + 1 = capacity s" by simp
      then show ?thesis using w len wc True
        by (simp add: toArray_def push_ring_fields array_set_def update_last_slot)
    qed
  next
    case False
    with cnt have full: "count s = capacity s" by simp
    have ne: "drop w (buffer s) \<noteq> []" using w len by simp
    have tl_eq: "tl (toArray s) = drop (Suc w) (buffer s) @ take w (buffer s)"
      using w full ne by (simp add: toArray_def drop_Suc tl_drop)
    show ?thesis
    proof (cases "Suc w < capacity s")
      case True
      then show ?thesis using w len full tl_eq pos
        by (simp add: toArray_def push_ring_fields array_set_def take_Suc_conv_app_nth)
    next
      case False
      with w have eq: "Suc w = capacity s" by simp
      then show ?thesis using w len full tl_eq pos
        by (simp add: toArray_def push_ring_fields array_set_def update_last_slot)
    qed
  qed
qed

lemma length_toArray: "store_inv s \<Longrightarrow> length (toArray s) = count s"
  by (auto simp: store_inv_def toArray_def split: option.splits)

lemma toArray_push_drop:
  assumes "store_inv s"
  shows "toArray (push now io e s) =
     drop (length (toArray s @ [Some e]) - capacity s) (toArray s @ [Some e])"
proof (cases "count s < capacity s")
  case True
  then show ?thesis using assms by (simp add: toArray_push length_toArray)
next
  case False
  with assms have full: "count s = capacity s" and pos: "0 < capacity s"
    by (auto simp: store_inv_def)
  then have "toArray s \<noteq> []" using length_toArray [OF assms] by auto
  then show ?thesis using assms full pos
    by (simp add: toArray_push length_toArray drop_Suc flip: tl_drop)
qed

lemma drop_window_step:
  fixes xs :: "'a list"
  shows "drop (length (drop (length xs - c) xs @ [x]) - c) (drop (length xs - c) xs @ [x]) =
     drop (length (xs @ [x]) - c) (xs @ [x])"
  by (cases "length xs < c") (auto simp: Suc_diff_le)

lemma pushes_snoc: "pushes (ps @ [(now, io, e)]) s = push now io e (pushes ps s)"
  by (induction ps arbitrary: s) auto

lemma store_inv_pushes: "store_inv s \<Longrightarrow> store_inv (pushes ps s)"
  by (induction ps arbitrary: s) (auto simp: store_inv_push)

lemma capacity_pushes: "capacity (pushes ps s) = capacity s"
  by (induction ps arbitrary: s) (auto simp: push_ring_fields)

lemma toArray_new: "toArray (new_EventStore (Some c) path) = []"
  by (simp add: toArray_def new_EventStore_def)

lemma toArray_pushes_new:
  assumes "0 < c"
  shows "toArray (pushes ps (new_EventStore (Some c) path)) =
     map Some (drop (length ps - c) (map (\<lambda>p. snd (snd p)) ps))"
proof (induction ps rule: rev_induct)
  case Nil
  show ?case by (simp add: toArray_new)
next
  case (snoc p ps)
  obtain now io e where p: "p = (now, io, e)" by (cases p) auto
  let ?s = "pushes ps (new_EventStore (Some c) path)"
  have inv: "store_inv ?s" using assms by (simp add: store_inv_pushes store_inv_new)
  have cap: "capacity ?s = c" by (simp add: capacity_pushes new_EventStore_def)
  let ?xs = "map Some (map (\<lambda>p. snd (snd p)) ps)"
  have old: "toArray ?s = drop (length ?xs - c) ?xs"
    by (simp add: snoc.IH drop_map)
  have "toArray (pushes (ps @ [p]) (new_EventStore (Some c) path)) =
      drop (length (toArray ?s @ [Some e]) - c) (toArray ?s @ [Some e])"
    unfolding p pushes_snoc toArray_push_drop [OF inv] cap ..
  also have "\<dots> = drop (length (?xs @ [Some e]) - c) (?xs @ [Some e])"
    unfolding old by (rule drop_window_step)
  also have "\<dots> = map Some (drop (length (ps @ [p]) - c) (map (\<lambda>p. snd (snd p)) (ps @ [p])))"
    using assms by (simp add: p drop_map)
  finally show ?case .
qed

lemma count_pushes_new:
  "count (pushes ps (new_EventStore (Some c) path)) = min (length ps) c"
proof (induction ps rule: rev_induct)
  case Nil
  show ?case by (simp add: new_EventStore_def)
next
  case (snoc p ps)
  obtain now io e where p: "p = (now, io, e)" by (cases p) auto
  show ?case unfolding p pushes_snoc
    using snoc.IH by (simp add: push_ring_fields capacity_pushes) (simp add: new_EventStore_def)
qed






lemma pushes_stuck:
  "capacity s = 0 \<Longrightarrow> writeIndex s = None \<Longrightarrow>
   capacity (pushes ps s) = 0 \<and> writeIndex (pushes ps s) = None
   \<and> count (pushes ps s) = count s \<and> buffer (pushes ps s) = buffer s"
  by (induction ps arbitrary: s) (auto simp: push_ring_fields)

lemma push_new_zero:
  "capacity (push now io e (new_EventStore (Some 0) path)) = 0"
  "writeIndex (push now io e (new_EventStore (Some 0) path)) = None"
  "count (push now io e (new_EventStore (Some 0) path)) = 0"
  "buffer (push now io e (new_EventStore (Some 0) path)) = [Some e]"
  by (simp_all add: push_ring_fields new_EventStore_def array_set_def)

lemma toArray_pushes_zero:
  "toArray (pushes ps (new_EventStore (Some 0) path)) = map Some (take 1 (map (\<lambda>p. snd (snd p)) ps))"
proof (cases ps)
  case Nil
  then show ?thesis by (simp add: toArray_new)
next
  case (Cons p rest)
  obtain now io e where p: "p = (now, io, e)" by (cases p) auto
  show ?thesis
    using pushes_stuck [of "push now io e (new_EventStore (Some 0) path)" rest]
    by (simp add: Cons p toArray_def push_new_zero)
qed

lemma toArray_reachable:
  "\<exists>xs. toArray (pushes ps (new_EventStore cap path)) = map Some xs"
proof (cases "cap = Some 0")
  case True
  then show ?thesis using toArray_pushes_zero by blast
next
  case False
  then obtain c where c: "0 < c" "new_EventStore cap path = (new_EventStore (Some c) path :: 'a EventStore)"
    by (cases cap) (auto simp: new_EventStore_def)
  then show ?thesis using toArray_pushes_new [OF c(1)] by metis
qed


text \<open>
  The ring of a store with room for at least one envelope: the size after k pushes,
  the envelopes that \<open>query()\<close> returns, and the eviction of the oldest one by a push
  into a full ring.
\<close>

lemma ring_buffer_contract:
  assumes "0 < c"
  shows "size_of (pushes ps (new_EventStore (Some c) path)) = min (length ps) c
     \<and> size_of (pushes ps (new_EventStore (Some c) path)) \<le> c
     \<and> query no_filter (pushes ps (new_EventStore (Some c) path))
         = Inr (map Some (drop (length ps - c) (map (\<lambda>p. snd (snd p)) ps)))
     \<and> (c \<le> length ps \<longrightarrow>
          toArray (push now io e (pushes ps (new_EventStore (Some c) path)))
            = tl (toArray (pushes ps (new_EventStore (Some c) path))) @ [Some e])"
proof -
  let ?s = "pushes ps (new_EventStore (Some c) path)"
  have inv: "store_inv ?s" using assms by (simp add: store_inv_pushes store_inv_new)
  have cap: "capacity ?s = c" by (simp add: capacity_pushes new_EventStore_def)
  have cnt: "count ?s = min (length ps) c" by (rule count_pushes_new)
  show ?thesis
    using toArray_push [OF inv, of now io e] cap cnt
    by (auto simp: size_of_def query_def no_filter_def toArray_pushes_new [OF assms])
qed

text \<open>
  Claim C3. After k pushes into a store of capacity c the size is \<open>min k c\<close>, and
  \<open>query()\<close> returns the last \<open>min k c\<close> pushed envelopes in push order, each push
  into a full store dropping the oldest one. For every capacity of at least 1 this is
  \<open>ring_buffer_contract\<close> above. For
  capacity 0 the code fails it: the first push writes slot 0 of the empty array, the
  cursor becomes \<open>NaN\<close>, and from then on \<open>query()\<close> returns the first envelope
  ever pushed although the size is 0.
\<close>

theorem capacity_zero_store_keeps_first_event:
  "size_of (pushes [(0, AppendOk, sample_event ''a'' ''t'' ''1''), (0, AppendOk, sample_event ''b'' ''t'' ''2'')]
              (new_EventStore (Some 0) None)) = 0
   \<and> query no_filter (pushes [(0, AppendOk, sample_event ''a'' ''t'' ''1''), (0, AppendOk, sample_event ''b'' ''t'' ''2'')]
              (new_EventStore (Some 0) None)) = Inr [Some (sample_event ''a'' ''t'' ''1'')]"
  by (simp add: size_of_def query_def no_filter_def toArray_pushes_zero count_pushes_new del: pushes.simps)









lemma new_EventStore_default: "new_EventStore None path = new_EventStore (Some 1000) path"
  by (simp add: new_EventStore_def)

text \<open>
  Claim C10, amended. For a GET /events request whose limit parameter is a non-empty
  string that \<open>parseInt\<close> maps to \<open>NaN\<close>, neither the default of 100 nor the cap of
  1000 applies: the handler returns what \<open>query\<close> returns without a limit for the same
  type and since, and with neither of them every envelope in the store.
\<close>

theorem unparsable_limit_is_no_limit:
  assumes "l \<noteq> []" and "parseInt l = NaN"
  shows "handleGetEvents ty si (Some l) st = query \<lparr> ftype = ty, since = si, limit = None \<rparr> st
     \<and> handleGetEvents None None (Some l) st = Inr (toArray st)"
  using assms by (simp add: handleGetEvents_def query_def split: sum.splits)

theorem unparsable_limit_is_no_limit_witness:
  "''abc'' \<noteq> [] \<and> parseInt ''abc'' = NaN
   \<and> handleGetEvents None None (Some ''abc'')
        (pushes [(0, AppendOk, sample_event ''1'' ''a'' ''t1''),
                 (0, AppendOk, sample_event ''2'' ''b'' ''t2'')] (new_EventStore None None))
     = Inr [Some (sample_event ''1'' ''a'' ''t1''), Some (sample_event ''2'' ''b'' ''t2'')]"
proof -
  define s where "s = pushes [(0::int, AppendOk, sample_event ''1'' ''a'' ''t1''),
                 (0, AppendOk, sample_event ''2'' ''b'' ''t2'')] (new_EventStore None None)"
  have n: "''abc'' \<noteq> []" by simp
  have p: "parseInt ''abc'' = NaN"
    by (simp add: parseInt_def is_ws_def is_digit_def)
  have t: "toArray s = [Some (sample_event ''1'' ''a'' ''t1''), Some (sample_event ''2'' ''b'' ''t2'')]"
    unfolding s_def by (simp add: new_EventStore_default toArray_pushes_new del: pushes.simps)
  from unparsable_limit_is_no_limit [OF n p, of None None s, THEN conjunct2] t
  have "handleGetEvents None None (Some ''abc'') s
      = Inr [Some (sample_event ''1'' ''a'' ''t1''), Some (sample_event ''2'' ''b'' ''t2'')]"
    by simp
  then show ?thesis using n p unfolding s_def by blast
qed

text \<open>
  Claim C10 as stated fails in two places. A limit that is present and empty does not
  parse as a number, yet the default of 100 applies: of 101 stored envelopes the
  handler returns 100. And with a type parameter the handler returns the envelopes of
  that type, not every envelope in the store.
\<close>

theorem empty_limit_counterexample:
  "parseInt [] = NaN
   \<and> handleGetEvents None None (Some [])
        (pushes (replicate 101 (0, AppendOk, sample_event ''1'' ''a'' ''t1'')) (new_EventStore None None))
     \<noteq> Inr (toArray (pushes (replicate 101 (0, AppendOk, sample_event ''1'' ''a'' ''t1''))
                (new_EventStore None None)))
   \<and> parseInt ''abc'' = NaN
   \<and> handleGetEvents (Some ''b'') None (Some ''abc'')
        (pushes [(0, AppendOk, sample_event ''1'' ''a'' ''t1'')] (new_EventStore None None))
     \<noteq> Inr (toArray (pushes [(0, AppendOk, sample_event ''1'' ''a'' ''t1'')]
                (new_EventStore None None)))"
proof -
  define s where "s = pushes (replicate 101 (0::int, AppendOk, sample_event ''1'' ''a'' ''t1''))
      (new_EventStore None None)"
  define u where "u = pushes [(0::int, AppendOk, sample_event ''1'' ''a'' ''t1'')]
      (new_EventStore None None)"
  have t: "toArray s = replicate 101 (Some (sample_event ''1'' ''a'' ''t1''))"
    unfolding s_def by (simp add: new_EventStore_default toArray_pushes_new del: pushes.simps)
  have q: "handleGetEvents None None (Some []) s
      = Inr (replicate 100 (Some (sample_event ''1'' ''a'' ''t1'')))"
    by (simp add: handleGetEvents_def query_def t)
  have p0: "parseInt [] = NaN" by (simp add: parseInt_def)
  have p: "parseInt ''abc'' = NaN"
    by (simp add: parseInt_def is_ws_def is_digit_def)
  have t1: "toArray u = [Some (sample_event ''1'' ''a'' ''t1'')]"
    unfolding u_def by (simp add: new_EventStore_default toArray_pushes_new del: pushes.simps)
  have q1: "handleGetEvents (Some ''b'') None (Some ''abc'') u = Inr []"
    by (simp add: handleGetEvents_def query_def t1 p array_filter_def sample_event_def)
  have "handleGetEvents None None (Some []) s \<noteq> Inr (toArray s)"
    unfolding q t by simp
  moreover have "handleGetEvents (Some ''b'') None (Some ''abc'') u \<noteq> Inr (toArray u)"
    unfolding q1 t1 by simp
  ultimately show ?thesis using p0 p unfolding s_def u_def by blast
qed


section \<open>Verification: the server\<close>

lemma parse_request_of: "parseJsonObjectBody (request_of ob) = Inr ob"
  by (simp add: parseJsonObjectBody_def request_of_def MAX_BODY_BYTES_def)

lemma isNonEmptyString_str: "isNonEmptyString v \<Longrightarrow> v = Some (JStr (str_of v)) \<and> non_blank (str_of v)"
  by (auto simp: isNonEmptyString_def str_of_def non_blank_def split: option.splits json.splits)

lemma validateFullEnvelope_Inr:
  assumes "validateFullEnvelope env body = Inr ev"
  shows "checked_envelope env ev
     \<and> field body ''schemaVersion'' = Some (JStr (schemaVersion ev))
     \<and> field body ''id'' = Some (JStr (eid ev))
     \<and> field body ''timestamp'' = Some (JStr (timestamp ev))
     \<and> (\<exists>t. etype ev = TStr t \<and> field body ''type'' = Some (JStr t))
     \<and> field body ''app'' = Some (JStr (app ev))
     \<and> field body ''appRoot'' = Some (JStr (appRoot ev))
     \<and> field body ''source'' = Some (JStr (case source ev of cli \<Rightarrow> ''cli'' | hook \<Rightarrow> ''hook''))
     \<and> field body ''correlationId'' = Some (JStr (correlationId ev))
     \<and> field body ''data'' = Some (data ev)"
  using assms
  by (auto simp: validateFullEnvelope_def checked_envelope_def isValidTimestamp_def has_field_def
        field_def dest!: isNonEmptyString_str split: if_splits)


lemma store_and_publish_store:
  "store (store_and_publish env ev srv) = push (now_ms env) (journal env) ev (store srv)"
  by (simp add: store_and_publish_def Let_def)

text \<open>
  Claim C1, amended. For every POST /events request whose body is a JSON object with
  a \<open>schemaVersion\<close> and that is answered with 201, the envelope handed to the store
  and published has \<open>schemaVersion\<close> "1.0.0"; its id, timestamp, type, app, appRoot
  and correlationId are the strings of the body, none of them blank, the timestamp one
  that \<open>Date.parse\<close> accepts; its source is the body's "cli" or "hook"; and its data is
  the body's data, which is present but may be any JSON value.
\<close>

theorem accepted_full_envelope_is_checked:
  assumes parse: "parseJsonObjectBody req = Inr body"
    and full: "field body ''schemaVersion'' \<noteq> None"
    and ok: "status (fst (handlePostEnvelope env req srv)) = 201"
  shows "\<exists>ev. snd (handlePostEnvelope env req srv) = store_and_publish env ev srv
     \<and> store (snd (handlePostEnvelope env req srv)) = push (now_ms env) (journal env) ev (store srv)
     \<and> checked_envelope env ev
     \<and> field body ''id'' = Some (JStr (eid ev))
     \<and> field body ''timestamp'' = Some (JStr (timestamp ev))
     \<and> (\<exists>t. etype ev = TStr t \<and> field body ''type'' = Some (JStr t))
     \<and> field body ''app'' = Some (JStr (app ev))
     \<and> field body ''appRoot'' = Some (JStr (appRoot ev))
     \<and> field body ''source'' = Some (JStr (case source ev of cli \<Rightarrow> ''cli'' | hook \<Rightarrow> ''hook''))
     \<and> field body ''correlationId'' = Some (JStr (correlationId ev))
     \<and> field body ''data'' = Some (data ev)"
proof (cases "validateFullEnvelope env body")
  case (Inl err)
  with parse full ok show ?thesis
    by (simp add: handlePostEnvelope_def error_response_def split: if_splits)
next
  case (Inr ev)
  have "snd (handlePostEnvelope env req srv) = store_and_publish env ev srv"
    using parse full ok Inr
    by (simp add: handlePostEnvelope_def error_response_def split: if_splits)
  with validateFullEnvelope_Inr [OF Inr] show ?thesis
    by (intro exI [of _ ev]) (simp add: store_and_publish_store)
qed


lemma field_full_envelope_body:
  "field (full_envelope_body ty d) ''schemaVersion'' = Some (JStr ''1.0.0'')"
  "field (full_envelope_body ty d) ''id'' = Some (JStr ''e1'')"
  "field (full_envelope_body ty d) ''timestamp'' = Some (JStr ''2026-01-01T00:00:00.000Z'')"
  "field (full_envelope_body ty d) ''type'' = Some (JStr ty)"
  "field (full_envelope_body ty d) ''app'' = Some (JStr ''demo'')"
  "field (full_envelope_body ty d) ''appRoot'' = Some (JStr ''/p'')"
  "field (full_envelope_body ty d) ''source'' = Some (JStr ''cli'')"
  "field (full_envelope_body ty d) ''correlationId'' = Some (JStr ''0a1b2c3d'')"
  "field (full_envelope_body ty d) ''data'' = Some d"
  "has_field (full_envelope_body ty d) ''data''"
  by (simp_all add: field_def has_field_def full_envelope_body_def)

lemma validate_full_envelope_body:
  "non_blank ty \<Longrightarrow>
   validateFullEnvelope sample_env (full_envelope_body ty d) = Inr (sample_full_envelope ty d)"
  by (simp add: validateFullEnvelope_def field_full_envelope_body isNonEmptyString_def
      non_blank_def is_ws_def isValidTimestamp_def sample_env_def str_of_def
      sample_full_envelope_def)

lemma post_full_envelope_body:
  "non_blank ty \<Longrightarrow>
   handlePostEnvelope sample_env (request_of (full_envelope_body ty d)) srv =
     (\<lparr> status = 201, rbody = JObj [(''ok'', JBool True), (''id'', JStr ''e1'')] \<rparr>,
      store_and_publish sample_env (sample_full_envelope ty d) srv)"
  by (simp add: handlePostEnvelope_def parse_request_of field_full_envelope_body
      validate_full_envelope_body) (simp add: sample_full_envelope_def)

lemma toArray_push_new:
  "0 < c \<Longrightarrow> toArray (push now io e (new_EventStore (Some c) path)) = [Some e]"
  by (cases c) (simp_all add: toArray_def push_def new_EventStore_def array_set_def Let_def
      split: persist_io.split)

theorem accepted_full_envelope_is_checked_witness:
  "parseJsonObjectBody (request_of (full_envelope_body ''worktree.created'' (JObj [])))
     = Inr (full_envelope_body ''worktree.created'' (JObj []))
   \<and> field (full_envelope_body ''worktree.created'' (JObj [])) ''schemaVersion'' \<noteq> None
   \<and> status (fst (handlePostEnvelope sample_env
        (request_of (full_envelope_body ''worktree.created'' (JObj []))) (sample_server []))) = 201
   \<and> (\<exists>ev. store (snd (handlePostEnvelope sample_env
          (request_of (full_envelope_body ''worktree.created'' (JObj []))) (sample_server [])))
        = push 0 AppendOk ev (new_EventStore (Some 3) None)
      \<and> checked_envelope sample_env ev
      \<and> data ev = JObj [] \<and> etype ev = TStr ''worktree.created'')"
proof -
  define body where "body = full_envelope_body ''worktree.created'' (JObj [])"
  define req where "req = request_of body"
  have nb: "non_blank ''worktree.created''" by (simp add: non_blank_def is_ws_def)
  have h1: "parseJsonObjectBody req = Inr body" by (simp add: req_def parse_request_of)
  have h2: "field body ''schemaVersion'' \<noteq> None"
    by (simp add: body_def field_full_envelope_body)
  have h3: "status (fst (handlePostEnvelope sample_env req (sample_server []))) = 201"
    by (simp add: req_def body_def post_full_envelope_body [OF nb])
  from accepted_full_envelope_is_checked [OF h1 h2 h3]
  obtain ev where ev: "store (snd (handlePostEnvelope sample_env req (sample_server [])))
        = push (now_ms sample_env) (journal sample_env) ev (store (sample_server []))"
      "checked_envelope sample_env ev"
      "\<exists>t. etype ev = TStr t \<and> field body ''type'' = Some (JStr t)"
      "field body ''data'' = Some (data ev)"
    by blast
  then have "store (snd (handlePostEnvelope sample_env req (sample_server [])))
        = push 0 AppendOk ev (new_EventStore (Some 3) None)
      \<and> checked_envelope sample_env ev \<and> data ev = JObj [] \<and> etype ev = TStr ''worktree.created''"
    by (auto simp: sample_env_def sample_server_def body_def field_full_envelope_body)
  then show ?thesis using h1 h2 h3 unfolding req_def body_def by blast
qed

text \<open>
  Claim C1 as stated fails for \<open>data\<close>: a full envelope whose data is \<open>null\<close> is
  answered with 201 and stored as it is, so the stored envelope does not satisfy the
  schema of section 3.
\<close>

theorem null_data_accepted_counterexample:
  "status (fst (handlePostEnvelope sample_env
        (request_of (full_envelope_body ''worktree.created'' JNull)) (sample_server []))) = 201
   \<and> toArray (store (snd (handlePostEnvelope sample_env
        (request_of (full_envelope_body ''worktree.created'' JNull)) (sample_server []))))
       = [Some (sample_full_envelope ''worktree.created'' JNull)]
   \<and> data (sample_full_envelope ''worktree.created'' JNull) = JNull
   \<and> \<not> spec_wellformed sample_env (sample_full_envelope ''worktree.created'' JNull)"
proof -
  have nb: "non_blank ''worktree.created''" by (simp add: non_blank_def is_ws_def)
  show ?thesis
    by (simp add: post_full_envelope_body [OF nb] store_and_publish_store sample_server_def
        toArray_push_new spec_wellformed_def is_object_def)
       (simp add: sample_full_envelope_def)
qed


lemma sockets_store_and_publish:
  "sockets (store_and_publish env ev srv) =
     map (\<lambda>c. c\<lparr> inbox := inbox c
            @ (if ''events.all'' \<in> topics c then [stringify (show_num env) (envelope_json ev)] else [])
            @ (if ''events.'' @ type_String env (etype ev) \<in> topics c
               then [stringify (show_num env) (envelope_json ev)] else []) \<rparr>)
       (sockets srv)"
  by (simp add: store_and_publish_def Let_def publish_def comp_def del: stringify.simps cong: map_cong)

lemma topics_websocket_open:
  "topics (websocket_open filt fresh_socket) =
     (case filt of
        None \<Rightarrow> {''events.all''}
      | Some f \<Rightarrow> if f = [] then {''events.all''}
                  else if f = ''all'' then {} else {''events.'' @ f})"
  by (auto simp: websocket_open_def subscribe_def unsubscribe_def fresh_socket_def Let_def
      split: option.split)

lemma inbox_websocket_open: "inbox (websocket_open filt fresh_socket) = []"
  by (simp add: websocket_open_def subscribe_def unsubscribe_def fresh_socket_def Let_def
      split: option.split)

lemma delivery_exactly_once:
  assumes "type_String env (etype ev) \<noteq> ''all''" and "filt \<noteq> Some ''all''"
  shows "map inbox (sockets (store_and_publish env ev
            (srv\<lparr> sockets := [websocket_open filt fresh_socket] \<rparr>))) =
     [if filt = None \<or> filt = Some [] \<or> filt = Some (type_String env (etype ev))
      then [stringify (show_num env) (envelope_json ev)] else []]"
  using assms
  by (cases filt)
     (simp_all add: sockets_store_and_publish topics_websocket_open inbox_websocket_open
        del: stringify.simps)

text \<open>
  Claim C2. An accepted envelope reaches a subscriber without a filter exactly once,
  and a subscriber with filter F exactly once if its type is F and never otherwise.
  For every type and every filter other than "all" this is \<open>delivery_exactly_once\<close>
  above. For the type "all" the code fails it: the specific topic \<open>events.all\<close> is the
  broad topic, the envelope is published on it twice, and a subscriber without a filter
  receives the frame twice; a subscriber with the filter "all" subscribes to
  \<open>events.all\<close> and unsubscribes from it again, and receives nothing.
\<close>

theorem type_all_delivered_twice:
  "map inbox (sockets (snd (handlePostEnvelope sample_env
       (request_of (full_envelope_body ''all'' (JObj [])))
       (sample_server [websocket_open None fresh_socket, websocket_open (Some ''all'') fresh_socket]))))
   = [[stringify (show_num sample_env) (envelope_json (sample_full_envelope ''all'' (JObj []))),
       stringify (show_num sample_env) (envelope_json (sample_full_envelope ''all'' (JObj [])))],
      []]"
proof -
  have nb: "non_blank ''all''" by (simp add: non_blank_def is_ws_def)
  have ty: "type_String sample_env (etype (sample_full_envelope ''all'' (JObj []))) = ''all''"
    by (simp add: sample_full_envelope_def type_String_def)
  show ?thesis
    by (simp add: post_full_envelope_body [OF nb] sockets_store_and_publish sample_server_def
        topics_websocket_open inbox_websocket_open ty del: stringify.simps)
qed


lemma field_property_append:
  "field (property k v @ rest) k' =
     (if k = k' then (case v of None \<Rightarrow> field rest k' | Some x \<Rightarrow> Some x) else field rest k')"
  by (simp add: field_def property_def split: option.split)

lemma field_property: "field (property k v) k' = (if k = k' then v else None)"
  by (simp add: field_def property_def split: option.split)

lemma preview_fields:
  "data_field (extractEventFields sh ''pre-tool-use'' raw) ''toolInputPreview''
     = truncateField sh (field raw ''tool_input'')"
  "data_field (extractEventFields sh ''post-tool-use'' raw) ''toolResultPreview''
     = truncateField sh (field raw ''tool_result'')"
  by (simp_all add: extractEventFields_def data_field_def field_property_append field_property
      split: option.split)

lemma short_preview_unchanged:
  "length (stringify sh (nullish v (JStr []))) \<le> 2000 \<Longrightarrow> truncateField sh v = v"
  by (simp add: truncateField_def Let_def)

lemma preview_long:
  "length (stringify sh (nullish v (JStr []))) > 2000 \<Longrightarrow>
     truncateField sh v = Some (JStr (spec_preview sh v))"
  by (simp add: truncateField_def spec_preview_def Let_def)

lemma hook_event_accepted:
  assumes "parseJsonObjectBody req = Inr raw" and "eventName \<noteq> ''stop''"
  shows "handleHookEvent env eventName req srv =
     Inr (\<lparr> status = 201, rbody = JObj [(''id'', JStr (nanoId env))] \<rparr>,
          store_and_publish env
            (createEvent env (mapEventName eventName)
               (extractEventFields (show_num env) eventName raw)
               \<lparr> c_app = (if isNonEmptyString (field raw ''app'')
                           then str_of (field raw ''app'') else defaultApp srv),
                 c_appRoot = (case field raw ''cwd'' of
                                Some (JStr c) \<Rightarrow> c | _ \<Rightarrow> defaultAppRoot srv),
                 c_source = hook,
                 c_correlationId = Some (generateCorrelationId env) \<rparr>) srv)"
  using assms by (simp add: handleHookEvent_def Let_def createEvent_def)

lemma mapEventName_pre_tool_use: "mapEventName ''pre-tool-use'' = TStr ''hook.pre_tool_use''"
  by (simp add: mapEventName_def EVENT_NAME_MAP_def)

lemma mapEventName_post_tool_use: "mapEventName ''post-tool-use'' = TStr ''hook.post_tool_use''"
  by (simp add: mapEventName_def EVENT_NAME_MAP_def)

text \<open>
  A hook name that is not in the table but is a property that every object inherits:
  the handler still answers 201, and the stored envelope has the inherited value as
  its type.
\<close>

lemma mapEventName_inherited:
  "mapEventName ''constructor'' = TNative ''Object''"
  "mapEventName ''toString'' = TNative ''toString''"
  "mapEventName ''__proto__'' = TObjectPrototype"
  "mapEventName ''my-hook'' = TStr ''hook.my_hook''"
  by (simp_all add: mapEventName_def EVENT_NAME_MAP_def object_prototype_methods_def)

lemma stored_hook_event:
  assumes "parseJsonObjectBody req = Inr raw" and "eventName \<noteq> ''stop''"
  shows "\<exists>ev. handleHookEvent env eventName req srv
            = Inr (\<lparr> status = 201, rbody = JObj [(''id'', JStr (eid ev))] \<rparr>,
                   store_and_publish env ev srv)
        \<and> store (store_and_publish env ev srv) = push (now_ms env) (journal env) ev (store srv)
        \<and> (store_inv (store srv) \<longrightarrow>
             toArray (store (store_and_publish env ev srv))
               = (if count (store srv) < capacity (store srv) then toArray (store srv)
                  else tl (toArray (store srv))) @ [Some ev])
        \<and> etype ev = mapEventName eventName
        \<and> data ev = extractEventFields (show_num env) eventName raw"
  unfolding hook_event_accepted [OF assms] store_and_publish_store
  by (rule exI [where x = "createEvent env (mapEventName eventName)
               (extractEventFields (show_num env) eventName raw)
               \<lparr> c_app = (if isNonEmptyString (field raw ''app'')
                           then str_of (field raw ''app'') else defaultApp srv),
                 c_appRoot = (case field raw ''cwd'' of
                                Some (JStr c) \<Rightarrow> c | _ \<Rightarrow> defaultAppRoot srv),
                 c_source = hook,
                 c_correlationId = Some (generateCorrelationId env) \<rparr>"])
     (simp add: createEvent_def toArray_push)

text \<open>
  Claim C5. A value routed to a preview field is serialized with \<open>JSON.stringify\<close>
  (an absent or null value as the empty string); if the serialization is longer than
  2000 characters, the field of the stored envelope is the string made of its first
  2000 characters and "...", of length 2003. For a POST /events/pre-tool-use whose
  body is read as a JSON object with such a \<open>tool_input\<close>, the handler answers 201
  with the id of an envelope \<open>ev\<close>, the store after the request is the store before
  with \<open>ev\<close> pushed, so that \<open>ev\<close> is the newest entry that \<open>toArray\<close> returns, and
  \<open>toolInputPreview\<close> of its data is that string; likewise for
  POST /events/post-tool-use, \<open>tool_result\<close> and \<open>toolResultPreview\<close>.
  (A shorter serialization leaves the value as it is: \<open>short_preview_unchanged\<close>.)
\<close>

theorem preview_is_truncated:
  assumes "parseJsonObjectBody req = Inr raw"
    and "length (stringify (show_num env) (nullish v (JStr []))) > 2000"
  shows "length (spec_preview (show_num env) v) = 2003
     \<and> take 2000 (spec_preview (show_num env) v)
          = take 2000 (stringify (show_num env) (nullish v (JStr [])))
     \<and> drop 2000 (spec_preview (show_num env) v) = ''...''
     \<and> (field raw ''tool_input'' = v \<longrightarrow>
          (\<exists>ev. handleHookEvent env ''pre-tool-use'' req srv
                   = Inr (\<lparr> status = 201, rbody = JObj [(''id'', JStr (eid ev))] \<rparr>,
                          store_and_publish env ev srv)
             \<and> store (store_and_publish env ev srv)
                   = push (now_ms env) (journal env) ev (store srv)
             \<and> (store_inv (store srv) \<longrightarrow>
                  toArray (store (store_and_publish env ev srv))
                    = (if count (store srv) < capacity (store srv) then toArray (store srv)
                       else tl (toArray (store srv))) @ [Some ev])
             \<and> etype ev = TStr ''hook.pre_tool_use''
             \<and> data_field (data ev) ''toolInputPreview''
                   = Some (JStr (spec_preview (show_num env) v))))
     \<and> (field raw ''tool_result'' = v \<longrightarrow>
          (\<exists>ev. handleHookEvent env ''post-tool-use'' req srv
                   = Inr (\<lparr> status = 201, rbody = JObj [(''id'', JStr (eid ev))] \<rparr>,
                          store_and_publish env ev srv)
             \<and> store (store_and_publish env ev srv)
                   = push (now_ms env) (journal env) ev (store srv)
             \<and> (store_inv (store srv) \<longrightarrow>
                  toArray (store (store_and_publish env ev srv))
                    = (if count (store srv) < capacity (store srv) then toArray (store srv)
                       else tl (toArray (store srv))) @ [Some ev])
             \<and> etype ev = TStr ''hook.post_tool_use''
             \<and> data_field (data ev) ''toolResultPreview''
                   = Some (JStr (spec_preview (show_num env) v))))"
proof -
  have len: "length (spec_preview (show_num env) v) = 2003"
    and pre: "take 2000 (spec_preview (show_num env) v)
          = take 2000 (stringify (show_num env) (nullish v (JStr [])))"
    and suf: "drop 2000 (spec_preview (show_num env) v) = ''...''"
    using assms(2) by (simp_all add: spec_preview_def)
  have ne: "''pre-tool-use'' \<noteq> ''stop''" "''post-tool-use'' \<noteq> ''stop''" by simp_all
  have a: "field raw ''tool_input'' = v \<Longrightarrow>
      data_field (extractEventFields (show_num env) ''pre-tool-use'' raw) ''toolInputPreview''
        = Some (JStr (spec_preview (show_num env) v))"
    using preview_long [OF assms(2)] by (simp add: preview_fields)
  have b: "field raw ''tool_result'' = v \<Longrightarrow>
      data_field (extractEventFields (show_num env) ''post-tool-use'' raw) ''toolResultPreview''
        = Some (JStr (spec_preview (show_num env) v))"
    using preview_long [OF assms(2)] by (simp add: preview_fields)
  from stored_hook_event [OF assms(1) ne(1), of env srv] a
  have p1: "field raw ''tool_input'' = v \<longrightarrow>
          (\<exists>ev. handleHookEvent env ''pre-tool-use'' req srv
                   = Inr (\<lparr> status = 201, rbody = JObj [(''id'', JStr (eid ev))] \<rparr>,
                          store_and_publish env ev srv)
             \<and> store (store_and_publish env ev srv)
                   = push (now_ms env) (journal env) ev (store srv)
             \<and> (store_inv (store srv) \<longrightarrow>
                  toArray (store (store_and_publish env ev srv))
                    = (if count (store srv) < capacity (store srv) then toArray (store srv)
                       else tl (toArray (store srv))) @ [Some ev])
             \<and> etype ev = TStr ''hook.pre_tool_use''
             \<and> data_field (data ev) ''toolInputPreview''
                   = Some (JStr (spec_preview (show_num env) v)))"
    unfolding mapEventName_pre_tool_use by metis
  from stored_hook_event [OF assms(1) ne(2), of env srv] b
  have p2: "field raw ''tool_result'' = v \<longrightarrow>
          (\<exists>ev. handleHookEvent env ''post-tool-use'' req srv
                   = Inr (\<lparr> status = 201, rbody = JObj [(''id'', JStr (eid ev))] \<rparr>,
                          store_and_publish env ev srv)
             \<and> store (store_and_publish env ev srv)
                   = push (now_ms env) (journal env) ev (store srv)
             \<and> (store_inv (store srv) \<longrightarrow>
                  toArray (store (store_and_publish env ev srv))
                    = (if count (store srv) < capacity (store srv) then toArray (store srv)
                       else tl (toArray (store srv))) @ [Some ev])
             \<and> etype ev = TStr ''hook.post_tool_use''
             \<and> data_field (data ev) ''toolResultPreview''
                   = Some (JStr (spec_preview (show_num env) v)))"
    unfolding mapEventName_post_tool_use by metis
  from len pre suf p1 p2 show ?thesis by (intro conjI)
qed

lemma quote_replicate_x:
  "quote (replicate n CHR ''x'') = CHR 0x22 # replicate n CHR ''x'' @ [CHR 0x22]"
proof -
  have "concat (map escape_char (replicate n CHR ''x'')) = replicate n CHR ''x''"
    by (induction n) (simp_all add: escape_char_def)
  then show ?thesis by (simp add: quote_def)
qed

lemma stringify_big_tool_input:
  "stringify sh big_tool_input = ''{'' @ quote ''content'' @ '':'' @ [CHR 0x22] @ replicate 3000 CHR ''x'' @ [CHR 0x22] @ ''}''"
  by (simp add: big_tool_input_def quote_replicate_x)


lemma quote_content: "quote ''content'' = [CHR 0x22] @ ''content'' @ [CHR 0x22]"
  by (simp add: quote_def escape_char_def)

lemma prefix_big_tool_input:
  "take 2000 (stringify sh big_tool_input)
     = ''{'' @ [CHR 0x22] @ ''content'' @ [CHR 0x22] @ '':'' @ [CHR 0x22] @ replicate 1988 CHR ''x''"
  by (simp add: stringify_big_tool_input quote_content)

lemma length_big_tool_input: "length (stringify sh big_tool_input) = 3014"
  by (simp add: stringify_big_tool_input quote_content)

text \<open>
  The end-to-end scenario: a POST /events/pre-tool-use whose \<open>tool_input.content\<close> is
  3000 "x" is answered with 201, and the one envelope in the store afterwards has a
  \<open>toolInputPreview\<close> of length 2003 that ends with "...".
\<close>

theorem preview_is_truncated_witness:
  "parseJsonObjectBody (request_of [(''session_id'', JStr ''S''), (''tool_name'', JStr ''Write''),
           (''tool_input'', big_tool_input)])
      = Inr [(''session_id'', JStr ''S''), (''tool_name'', JStr ''Write''),
           (''tool_input'', big_tool_input)]
   \<and> length (stringify (show_num sample_env) (nullish (Some big_tool_input) (JStr []))) > 2000
   \<and> store_inv (store (sample_server []))
   \<and> (\<exists>ev. handleHookEvent sample_env ''pre-tool-use''
              (request_of [(''session_id'', JStr ''S''), (''tool_name'', JStr ''Write''),
                           (''tool_input'', big_tool_input)]) (sample_server [])
            = Inr (\<lparr> status = 201, rbody = JObj [(''id'', JStr (eid ev))] \<rparr>,
                   store_and_publish sample_env ev (sample_server []))
        \<and> toArray (store (store_and_publish sample_env ev (sample_server []))) = [Some ev]
        \<and> etype ev = TStr ''hook.pre_tool_use''
        \<and> data_field (data ev) ''toolInputPreview''
            = Some (JStr (''{'' @ [CHR 0x22] @ ''content'' @ [CHR 0x22] @ '':'' @ [CHR 0x22]
                          @ replicate 1988 CHR ''x'' @ ''...'')))
   \<and> length (''{'' @ [CHR 0x22] @ ''content'' @ [CHR 0x22] @ '':'' @ [CHR 0x22]
                     @ replicate 1988 CHR ''x'' @ ''...'') = 2003"
proof -
  define raw where "raw = [(''session_id'', JStr ''S''), (''tool_name'', JStr ''Write''),
           (''tool_input'', big_tool_input)]"
  have n: "nullish (Some big_tool_input) (JStr []) = big_tool_input"
    by (simp add: nullish_def big_tool_input_def)
  have h1: "parseJsonObjectBody (request_of raw) = Inr raw" by (rule parse_request_of)
  have h2: "length (stringify (show_num sample_env) (nullish (Some big_tool_input) (JStr []))) > 2000"
    unfolding n by (simp add: length_big_tool_input)
  have f: "field raw ''tool_input'' = Some big_tool_input"
    by (simp add: raw_def field_def)
  have inv: "store_inv (store (sample_server []))"
    by (simp add: sample_server_def store_inv_new)
  have arr: "toArray (store (sample_server [])) = []"
    by (simp add: sample_server_def toArray_new)
  have cnt: "count (store (sample_server [])) < capacity (store (sample_server []))"
    by (simp add: sample_server_def new_EventStore_def)
  have sp: "spec_preview (show_num sample_env) (Some big_tool_input)
      = ''{'' @ [CHR 0x22] @ ''content'' @ [CHR 0x22] @ '':'' @ [CHR 0x22]
         @ replicate 1988 CHR ''x'' @ ''...''"
    unfolding spec_preview_def n prefix_big_tool_input by simp
  from preview_is_truncated [OF h1 h2, of "sample_server []"] f inv
  obtain ev where
    r: "handleHookEvent sample_env ''pre-tool-use'' (request_of raw) (sample_server [])
            = Inr (\<lparr> status = 201, rbody = JObj [(''id'', JStr (eid ev))] \<rparr>,
                   store_and_publish sample_env ev (sample_server []))"
    and t: "toArray (store (store_and_publish sample_env ev (sample_server [])))
              = (if count (store (sample_server [])) < capacity (store (sample_server []))
                 then toArray (store (sample_server []))
                 else tl (toArray (store (sample_server [])))) @ [Some ev]"
    and ty: "etype ev = TStr ''hook.pre_tool_use''"
    and d: "data_field (data ev) ''toolInputPreview''
              = Some (JStr (spec_preview (show_num sample_env) (Some big_tool_input)))"
    by blast
  from t arr cnt have t': "toArray (store (store_and_publish sample_env ev (sample_server []))) = [Some ev]"
    by simp
  have l: "length (''{'' @ [CHR 0x22] @ ''content'' @ [CHR 0x22] @ '':'' @ [CHR 0x22]
                     @ replicate 1988 CHR ''x'' @ ''...'') = 2003" by simp
  from r t' ty d [unfolded sp] h1 h2 inv l show ?thesis
    unfolding raw_def by blast
qed


text \<open>
  Claim C6. A POST /events/stop request whose body is read as a JSON object with
  \<open>stop_hook_active: true\<close> is answered with 200 and
  \<open>{status: "skipped", reason: "stop_hook_active"}\<close>, and the server's state is the
  one before: nothing is stored, nothing is published, the store and its size are
  unchanged.
\<close>

theorem stop_hook_active_is_skipped:
  assumes "parseJsonObjectBody req = Inr raw"
    and "field raw ''stop_hook_active'' = Some (JBool True)"
  shows "handleHookEvent env ''stop'' req srv =
     Inr (\<lparr> status = 200,
            rbody = JObj [(''status'', JStr ''skipped''), (''reason'', JStr ''stop_hook_active'')] \<rparr>,
          srv)"
  using assms by (simp add: handleHookEvent_def)

theorem stop_hook_active_is_skipped_witness:
  "parseJsonObjectBody (request_of stop_body) = Inr stop_body
   \<and> field stop_body ''stop_hook_active'' = Some (JBool True)
   \<and> handleHookEvent sample_env ''stop'' (request_of stop_body)
        (sample_server [websocket_open None fresh_socket]) =
     Inr (\<lparr> status = 200,
            rbody = JObj [(''status'', JStr ''skipped''), (''reason'', JStr ''stop_hook_active'')] \<rparr>,
          sample_server [websocket_open None fresh_socket])"
proof -
  have h1: "parseJsonObjectBody (request_of stop_body) = Inr stop_body"
    by (rule parse_request_of)
  have h2: "field stop_body ''stop_hook_active'' = Some (JBool True)"
    by (simp add: stop_body_def field_def)
  from stop_hook_active_is_skipped [OF h1 h2] h1 h2 show ?thesis by blast
qed


section \<open>Verification: the playback queue\<close>

lemma maxDepth_playOne: "maxDepth (playOne ok f q) = maxDepth q"
  by (simp add: playOne_def playOne_try_def)

lemma queue_playOne: "queue (playOne ok f q) = queue q"
  by (simp add: playOne_def playOne_try_def)

lemma drain_loop_bound:
  "length (queue (drain_loop now ok q xs)) \<le> length xs
   \<and> maxDepth (drain_loop now ok q xs) = maxDepth q"
  by (induction xs) (auto simp: maxDepth_playOne queue_playOne)

lemma enqueue_returns: "\<exists>q'. enqueue now ok item q = Inr q'"
  by (simp add: enqueue_def Let_def)

lemma enqueue_full: "depth q \<ge> maxDepth q \<Longrightarrow> enqueue now ok item q = Inr q"
  by (simp add: enqueue_def depth_def)

lemma enqueue_bound:
  assumes "depth q \<le> maxDepth q" and "enqueue now ok item q = Inr q'"
  shows "depth q' \<le> maxDepth q' \<and> maxDepth q' = maxDepth q"
proof (cases "length (queue q) \<ge> maxDepth q")
  case True
  with assms show ?thesis by (simp add: enqueue_def)
next
  case False
  then have lt: "length (queue q) < maxDepth q" by simp
  show ?thesis
  proof (cases "playing q")
    case True
    with assms lt show ?thesis by (auto simp: enqueue_def depth_def Let_def)
  next
    case False
    with assms lt have q': "q' = drain_loop now ok (q\<lparr> queue := queue q @ [item], playing := True \<rparr>) (queue q @ [item])"
      by (auto simp: enqueue_def Let_def drain_def)
    from drain_loop_bound [of now ok "q\<lparr> queue := queue q @ [item], playing := True \<rparr>" "queue q @ [item]"]
    show ?thesis using lt unfolding q' depth_def by simp
  qed
qed

lemma apply_queue_op_bound:
  assumes "depth q \<le> maxDepth q"
  shows "\<exists>q'. apply_queue_op x q = Inr q' \<and> depth q' \<le> maxDepth q' \<and> maxDepth q' = maxDepth q"
proof (cases x)
  case (Enqueue now ok item)
  obtain q' where q': "enqueue now ok item q = Inr q'"
    using enqueue_returns by blast
  from enqueue_bound [OF assms q'] q' Enqueue show ?thesis by simp
next
  case (Resume now ok)
  from drain_loop_bound [of now ok "q\<lparr> currentProc := None \<rparr>" "queue q"] assms
  show ?thesis using Resume by (simp add: drain_resume_def depth_def)
next
  case Stop
  then show ?thesis by (simp add: stop_def depth_def Let_def)
next
  case Clear
  then show ?thesis by (simp add: clear_def depth_def)
qed

lemma run_queue_bound:
  "depth q \<le> maxDepth q \<Longrightarrow>
   \<exists>q'. run_queue xs q = Inr q' \<and> depth q' \<le> maxDepth q' \<and> maxDepth q' = maxDepth q"
proof (induction xs arbitrary: q)
  case Nil
  then show ?case by simp
next
  case (Cons x xs)
  from apply_queue_op_bound [OF Cons.prems, of x]
  obtain q1 where q1: "apply_queue_op x q = Inr q1" "depth q1 \<le> maxDepth q1" "maxDepth q1 = maxDepth q"
    by blast
  from Cons.IH [OF q1(2)] q1 show ?case by auto
qed

lemma new_queue_depth: "depth (new_PlaybackQueue d a p) = 0"
  by (simp add: depth_def new_PlaybackQueue_def)

text \<open>
  Claim C9. From a new queue with \<open>maxDepth\<close> d, after any run of enqueues (and of
  the queue's other operations, in any order) no operation has raised and the depth is
  at most d; \<open>enqueue\<close> never raises; and an enqueue at depth d or more returns the
  queue as it was, the item dropped.
\<close>

theorem queue_depth_bounded:
  "(\<exists>q'. run_queue xs (new_PlaybackQueue d a p) = Inr q' \<and> depth q' \<le> maxDepth q'
         \<and> maxDepth q' = maxDepth (new_PlaybackQueue d a p))
   \<and> (\<exists>q'. enqueue now ok item q = Inr q')
   \<and> (depth q \<ge> maxDepth q \<longrightarrow> enqueue now ok item q = Inr q)"
  using run_queue_bound [of "new_PlaybackQueue d a p" xs] enqueue_returns [of now ok item q]
    enqueue_full [of q now ok item]
  by (simp add: new_queue_depth)

text \<open>
  A full queue drops the item, and 100 enqueues with \<open>maxDepth\<close> 10 leave a depth of
  at most 10.
\<close>

theorem queue_depth_bounded_witness:
  "depth full_queue \<ge> maxDepth full_queue
   \<and> enqueue 0 True sample_item full_queue = Inr full_queue
   \<and> (\<exists>q'. run_queue (replicate 100 (Enqueue 0 True sample_item)) (new_PlaybackQueue (Some 10) None None) = Inr q'
         \<and> depth q' \<le> 10)"
proof -
  have h: "depth full_queue \<ge> maxDepth full_queue" by (simp add: full_queue_def depth_def)
  from queue_depth_bounded [of "replicate 100 (Enqueue 0 True sample_item)" "Some 10" None None 0 True sample_item full_queue] h
  show ?thesis by (auto simp: new_PlaybackQueue_def)
qed


section \<open>Verification: the reconnecting client\<close>

lemma pow2_below_cap: "(2::int) ^ n \<le> 30000 \<Longrightarrow> n < 15"
proof (rule ccontr)
  assume a: "(2::int) ^ n \<le> 30000" and "\<not> n < 15"
  then have "(2::int) ^ 15 \<le> 2 ^ n" by (intro power_increasing) simp_all
  with a show False by simp
qed

text \<open>
  For a positive delay the code waits the capped exponential part plus the jitter:
  the jitter is added after the minimum is taken.
\<close>

lemma reconnect_wait_value:
  assumes "0 < b"
  shows "reconnect_wait b n j = Finite (min (int b * 2 ^ n) 30000 + int j)"
proof (cases "n \<ge> 1024")
  case True
  have p: "(32768::int) \<le> 2 ^ n"
    using power_increasing [of 15 n "2::int"] True by simp
  have q: "(2::int) ^ n \<le> int b * 2 ^ n"
    using mult_right_mono [of 1 "int b" "2 ^ n"] assms by simp
  from p q have "30000 \<le> int b * 2 ^ n" by linarith
  then show ?thesis
    using True assms
    by (simp add: reconnect_wait_def js_pow2_def MAX_RECONNECT_DELAY_MS_def Let_def)
next
  case False
  have pos: "0 \<le> int b * 2 ^ n" by simp
  show ?thesis
  proof (cases "int b * 2 ^ n \<ge> 2 ^ 1024 - 2 ^ 970")
    case True
    then have "to_number (int b * 2 ^ n) = PosInf" by (simp add: to_number_def)
    moreover have "30000 \<le> int b * 2 ^ n" using True by simp
    ultimately show ?thesis
      using False
      by (simp add: reconnect_wait_def js_pow2_def MAX_RECONNECT_DELAY_MS_def Let_def
          del: of_nat_mult)
  next
    case big: False
    have th: "(0::int) < 2 ^ 1024 - 2 ^ 970" by simp
    have "\<not> int b * 2 ^ n \<le> - (2 ^ 1024 - 2 ^ 970)" using pos th by linarith
    with big have "to_number (int b * 2 ^ n) = Finite (int b * 2 ^ n)"
      unfolding to_number_def by (simp only: if_False)
    then show ?thesis
      using False
      by (simp add: reconnect_wait_def js_pow2_def MAX_RECONNECT_DELAY_MS_def Let_def
          del: of_nat_mult)
  qed
qed

text \<open>
  So the wait is the specification's \<open>min (b * 2^n + j) 30000\<close> exactly while
  \<open>b * 2^n + j \<le> 30000\<close>, and is above it by up to the jitter from there.
\<close>

lemma reconnect_wait_spec:
  assumes "0 < b"
  shows "reconnect_wait b n j = Finite (spec_reconnect_wait b n j)
           \<longleftrightarrow> int b * 2 ^ n + int j \<le> 30000 \<or> j = 0"
  by (auto simp: reconnect_wait_value [OF assms] spec_reconnect_wait_def min_def)

text \<open>A delay of 0 with 1024 or more failures: \<open>0 * Infinity\<close> is \<open>NaN\<close>.\<close>

lemma reconnect_wait_zero_delay_overflow: "1024 \<le> n \<Longrightarrow> reconnect_wait 0 n j = NaN"
  by (simp add: reconnect_wait_def js_pow2_def Let_def)

text \<open>A successful open resets the attempt counter; a close of a client that
  reconnects schedules the wait for the current counter and increments it.\<close>

lemma attempt_onopen: "attempt (onopen c) = 0"
  by (simp add: onopen_def)

lemma onclose_schedules:
  "\<not> closed c \<Longrightarrow>
     attempt (onclose True b j c) = attempt c + 1
     \<and> reconnectTimer (onclose True b j c) = Some (reconnect_wait b (attempt c) j)"
  by (simp add: onclose_def Let_def)

lemma failed_attempts_state:
  "\<not> closed c \<Longrightarrow>
     \<not> closed (failed_attempts b js c)
     \<and> attempt (failed_attempts b js c) = attempt c + length js"
  by (induction js arbitrary: c) (simp_all add: onclose_def connect_def Let_def)

text \<open>
  Claim C7. The delays grow exponentially from the base and are reset by a successful
  open (\<open>reconnect_wait_value\<close>, \<open>attempt_onopen\<close>, \<open>onclose_schedules\<close>), but the
  cap of 30000 ms does not hold. With \<open>reconnectDelay\<close> 1000, after five failed
  attempts, the sixth close with \<open>Math.random() = 0.5\<close> (a jitter of 500) hands 30500
  to \<open>setTimeout\<close>, where the specification's \<open>min(base * 2^n + jitter, 30s)\<close>, which
  is also the formula of the comments at client.ts lines 55 and 117, gives 30000:
  the code takes the minimum before it adds the jitter.
\<close>

theorem reconnect_wait_exceeds_cap:
  "reconnectTimer (onclose True 1000 500 (failed_attempts 1000 [0, 0, 0, 0, 0] connected_client))
      = Some (Finite 30500)
   \<and> reconnect_wait 1000 5 500 = Finite 30500
   \<and> spec_reconnect_wait 1000 5 500 = 30000"
proof -
  have c: "\<not> closed connected_client" "attempt connected_client = 0"
    by (simp_all add: connected_client_def)
  have w: "reconnect_wait 1000 5 500 = Finite 30500"
    by (simp add: reconnect_wait_value)
  have a: "\<not> closed (failed_attempts 1000 [0, 0, 0, 0, 0] connected_client)"
    and n: "attempt (failed_attempts 1000 [0, 0, 0, 0, 0] connected_client) = 5"
    using failed_attempts_state [OF c(1), of 1000 "[0, 0, 0, 0, 0]"] c(2)
    by (simp_all del: failed_attempts.simps)
  have "reconnectTimer (onclose True 1000 500 (failed_attempts 1000 [0, 0, 0, 0, 0] connected_client))
      = Some (reconnect_wait 1000 5 500)"
    using onclose_schedules [OF a, of 1000 500] unfolding n by simp
  then show ?thesis using w by (simp add: spec_reconnect_wait_def)
qed


section \<open>Verification: the emitter\<close>

lemma emitEvent_returns: "fst (emitEvent out now m) = Returns"
  by (simp add: emitEvent_def emit_try_def Let_def split: post_outcome.split)

lemma emitEvent_Responded:
  "emitEvent (Responded st) now m = (Returns, m\<lparr> emitFailures := 0 \<rparr>, [])"
  by (simp add: emitEvent_def emit_try_def)

lemma emitEvent_Threw:
  "emitEvent (Threw err) now m =
     (Returns,
      m\<lparr> emitFailures := emitFailures m + 1,
         lastEmitFailureLogAt := (if now - lastEmitFailureLogAt m \<ge> 30000 then now
                                  else lastEmitFailureLogAt m) \<rparr>,
      if now - lastEmitFailureLogAt m \<ge> 30000 then [(emitFailures m + 1, err)] else [])"
  by (simp add: emitEvent_def emit_try_def Let_def EMIT_FAILURE_LOG_INTERVAL_MS_def)

lemma emit_run_spaced:
  "spaced 30000 (fst (emit_run evs m))
   \<and> (fst (emit_run evs m) \<noteq> [] \<longrightarrow> hd (fst (emit_run evs m)) - lastEmitFailureLogAt m \<ge> 30000)"
proof (induction evs arbitrary: m)
  case Nil
  show ?case by simp
next
  case (Cons ev evs)
  obtain out now where ev: "ev = (out, now)" by (cases ev)
  show ?case
  proof (cases out)
    case (Responded st)
    with Cons.IH [of "m\<lparr> emitFailures := 0 \<rparr>"] show ?thesis
      by (simp add: ev emitEvent_Responded split: prod.split)
  next
    case (Threw err)
    show ?thesis
    proof (cases "now - lastEmitFailureLogAt m \<ge> 30000")
      case True
      let ?m' = "m\<lparr> emitFailures := emitFailures m + 1, lastEmitFailureLogAt := now \<rparr>"
      from Cons.IH [of ?m'] True show ?thesis
        by (cases "fst (emit_run evs ?m')")
           (auto simp: ev Threw emitEvent_Threw split: prod.split)
    next
      case False
      let ?m' = "m\<lparr> emitFailures := emitFailures m + 1 \<rparr>"
      from Cons.IH [of ?m'] False show ?thesis
        by (simp add: ev Threw emitEvent_Threw split: prod.split)
    qed
  qed
qed

text \<open>
  Claim C8, amended. \<open>emitEvent\<close> returns normally however the POST ends. When
  \<open>fetch\<close> resolves, with any status, the failure counter is reset to 0 and nothing
  is written. When the \<open>try\<close> block throws, the counter is incremented, and one line
  with the counter and the error is written exactly if at least 30000 ms have passed
  since the last written line, whose time is then the current one. In every run of
  calls, two successive written lines are at least 30000 ms apart.
\<close>

theorem emitEvent_absorbs_and_rate_limits:
  "fst (emitEvent out now m) = Returns
   \<and> (case out of
        Responded st \<Rightarrow>
          snd (emitEvent out now m) = (m\<lparr> emitFailures := 0 \<rparr>, [])
      | Threw err \<Rightarrow>
          emitFailures (fst (snd (emitEvent out now m))) = emitFailures m + 1
          \<and> snd (snd (emitEvent out now m)) =
              (if now - lastEmitFailureLogAt m \<ge> 30000 then [(emitFailures m + 1, err)] else [])
          \<and> lastEmitFailureLogAt (fst (snd (emitEvent out now m))) =
              (if now - lastEmitFailureLogAt m \<ge> 30000 then now else lastEmitFailureLogAt m))
   \<and> spaced 30000 (fst (emit_run evs m))"
  using emit_run_spaced [of evs m]
  by (simp add: emitEvent_returns emitEvent_Responded emitEvent_Threw split: post_outcome.split)

text \<open>
  Claim C8 as stated fails for a response outside 200-299: with the counter at 3, a
  response with status 500 resets the counter to 0 instead of incrementing it, and no
  line is written.
\<close>

theorem non_2xx_resets_counter_counterexample:
  "spec_emit_failed (Responded 500)
   \<and> emitEvent (Responded 500) 40000 \<lparr> emitFailures = 3, lastEmitFailureLogAt = 0 \<rparr>
       = (Returns, \<lparr> emitFailures = 0, lastEmitFailureLogAt = 0 \<rparr>, [])"
  by (simp add: spec_emit_failed_def emitEvent_Responded)

theorem emitEvent_absorbs_and_rate_limits_witness:
  "fst (emitEvent (Threw ''ECONNREFUSED'') 40000 initial_emitter) = Returns
   \<and> emitFailures (fst (snd (emitEvent (Threw ''ECONNREFUSED'') 40000 initial_emitter))) = 1
   \<and> snd (snd (emitEvent (Threw ''ECONNREFUSED'') 40000 initial_emitter)) = [(1, ''ECONNREFUSED'')]
   \<and> spaced 30000 (fst (emit_run [(Threw ''a'', 40000), (Threw ''b'', 50000), (Responded 201, 60000),
                                     (Threw ''c'', 70000)] initial_emitter))"
  using emitEvent_absorbs_and_rate_limits [of "Threw ''ECONNREFUSED''" 40000 initial_emitter
      "[(Threw ''a'', 40000), (Threw ''b'', 50000), (Responded 201, 60000), (Threw ''c'', 70000)]"]
  by (simp add: initial_emitter_def)

lemma emit_run_example:
  "fst (emit_run [(Threw ''a'', 40000), (Threw ''b'', 50000), (Responded 201, 60000),
                  (Threw ''c'', 70000)] initial_emitter) = [40000, 70000]"
  by (simp add: initial_emitter_def emitEvent_Threw emitEvent_Responded)


end
